theory Spec2Isabelle
  imports Complex_Main "HOL-Library.Word"
begin

section \<open>Evaluation utilities of the dog-image GAN (model/evaluation.py)\<close>

text \<open>
  The module is glue around TensorFlow, NumPy, matplotlib, OpenCV and two helpers of
  \<^verbatim>\<open>model/utils.py\<close>. The embedding keeps the control flow of every function of the
  module and makes its effects explicit:
  \<^item> a tensor is its shape and its row-major data; its elements are finite \<^verbatim>\<open>float32\<close>
    numbers, kept as the real numbers they denote, and every arithmetic operation rounds
    its exact result to the nearest \<^verbatim>\<open>float32\<close> number;
  \<^item> the random generator and the file system are components of an explicit world,
    threaded through the calls; every call to the GAN, to the FID metric, to matplotlib,
    to \<^verbatim>\<open>print\<close> and to \<^verbatim>\<open>cv2.imwrite\<close> is appended to the world's trace;
  \<^item> the library functions the module only calls (random sampling, \<^verbatim>\<open>scale_images\<close>,
    \<^verbatim>\<open>calculate_fid\<close>, \<^verbatim>\<open>os.walk\<close>, \<^verbatim>\<open>cv2.imwrite\<close>) and the GAN's forward passes are
    parameters;
  \<^item> a raised exception is a value; the world reached when it is raised is kept.
\<close>

subsection \<open>Tensors\<close>

record 'a ndarray =
  shape :: "nat list"
  data :: "'a list"

datatype error =
  IndexError | InvalidArgumentError | AttributeError | ValueError | KeyError | StopIteration
  | TypeError | Cv2Error

text \<open>Elementwise operations (\<^verbatim>\<open>img + 1.\<close>, \<^verbatim>\<open>255 * img\<close>, \<^verbatim>\<open>tf.math.floor\<close>, \<^verbatim>\<open>astype\<close>).\<close>

definition tmap :: "('a \<Rightarrow> 'b) \<Rightarrow> 'a ndarray \<Rightarrow> 'b ndarray" where
  "tmap f t = \<lparr>shape = shape t, data = map f (data t)\<rparr>"

text \<open>\<^verbatim>\<open>t.shape[0]\<close> and \<^verbatim>\<open>t.shape[-1]\<close>: indexing the empty shape tuple raises.\<close>

definition shape0 :: "'a ndarray \<Rightarrow> error + nat" where
  "shape0 t = (case shape t of [] \<Rightarrow> Inl IndexError | n # _ \<Rightarrow> Inr n)"

definition shape_last :: "'a ndarray \<Rightarrow> error + nat" where
  "shape_last t = (if shape t = [] then Inl IndexError else Inr (last (shape t)))"

text \<open>\<^verbatim>\<open>t[i, ...]\<close> on a TensorFlow tensor, \<open>i\<close> a non-negative index: the \<open>i\<close>-th slice
  along the first axis; TensorFlow raises when the index is out of bounds.\<close>

definition index0 :: "'a ndarray \<Rightarrow> nat \<Rightarrow> error + 'a ndarray" where
  "index0 t i =
     (case shape t of
        [] \<Rightarrow> Inl InvalidArgumentError
      | n # s \<Rightarrow>
          if i < n
          then Inr \<lparr>shape = s, data = take (prod_list s) (drop (i * prod_list s) (data t))\<rparr>
          else Inl InvalidArgumentError)"

text \<open>\<^verbatim>\<open>t[:1, ...]\<close>: a slice clamps to the axis.\<close>

definition slice_to1 :: "'a ndarray \<Rightarrow> error + 'a ndarray" where
  "slice_to1 t =
     (case shape t of
        [] \<Rightarrow> Inl InvalidArgumentError
      | n # s \<Rightarrow> Inr \<lparr>shape = min 1 n # s, data = take (min 1 n * prod_list s) (data t)\<rparr>)"

text \<open>\<^verbatim>\<open>np.squeeze(img, axis=-1)\<close>, called only where the last axis has length 1.\<close>

definition squeeze_last :: "'a ndarray \<Rightarrow> 'a ndarray" where
  "squeeze_last t = \<lparr>shape = butlast (shape t), data = data t\<rparr>"

text \<open>\<^verbatim>\<open>np.squeeze\<close> turns a TensorFlow tensor into a NumPy array, and a NumPy array
  has no attribute \<^verbatim>\<open>numpy\<close>.\<close>

datatype pyval = EagerTensor "real ndarray" | NumpyArray "real ndarray"

definition dot_numpy :: "pyval \<Rightarrow> error + real ndarray" where
  "dot_numpy v = (case v of EagerTensor t \<Rightarrow> Inr t | NumpyArray a \<Rightarrow> Inl AttributeError)"

subsection \<open>Arithmetic in float32\<close>

text \<open>\<^verbatim>\<open>round(x)\<close> of a float: the nearest integer, a tie going to the even one.\<close>

definition py_round :: "real \<Rightarrow> int" where
  "py_round x =
     (let f = \<lfloor>x\<rfloor>; d = x - of_int f
      in if d < 1 / 2 then f else if 1 / 2 < d then f + 1 else if even f then f else f + 1)"

text \<open>Rounding a real number to \<^verbatim>\<open>float32\<close> (24 significant bits, round to nearest, ties to
  even): the exponent of \<open>x\<close>, not below the one of the subnormal numbers, gives the spacing
  of the floats around \<open>x\<close>, and \<open>x\<close> is rounded to a multiple of it. Overflow to infinity is
  not modelled: the module's arithmetic (\<open>x + 1\<close>, a half, a product with 255 or with the
  number of classes) reaches \<open>2 ^ 128\<close> only from pixels beyond \<open>10 ^ 36\<close>.\<close>

definition f32_exponent :: "real \<Rightarrow> int" where
  "f32_exponent x = max \<lfloor>log 2 \<bar>x\<bar>\<rfloor> (- 126)"

definition f32_ulp :: "real \<Rightarrow> real" where
  "f32_ulp x = 2 powi (f32_exponent x - 23)"

definition f32_round :: "real \<Rightarrow> real" where
  "f32_round x = (if x = 0 then 0 else of_int (py_round (x / f32_ulp x)) * f32_ulp x)"


text \<open>\<^verbatim>\<open>(img + 1.) / 2.\<close> on a \<^verbatim>\<open>float32\<close> tensor: two operations, each rounded.\<close>

definition normalize :: "real \<Rightarrow> real" where
  "normalize x = f32_round (f32_round (x + 1) / 2)"

text \<open>\<^verbatim>\<open>255 * img.numpy()\<close>: the product stays in \<^verbatim>\<open>float32\<close>.\<close>

definition times_255 :: "real \<Rightarrow> real" where
  "times_255 x = f32_round (255 * x)"

subsection \<open>The world: random generator, file system, trace of calls\<close>

datatype event =
    GanCall "real ndarray" "real ndarray" bool
  | DiscriminatorCall "real ndarray" "real ndarray" bool
  | CalculateFid "real ndarray" "real ndarray"
  | PrintTensor string "real ndarray"
  | Print string
  | PltSubplots nat nat "nat \<times> nat"
  | AxImshow nat "real ndarray" "string option"
  | PltImshow "real ndarray" "string option"
  | PltTitle string
  | PltPlot "(real \<times> real) list" string
  | PltXlabel string
  | PltYlabel string
  | PltGrid string
  | PltLegend string
  | PltShow
  | Cv2Imwrite string "8 word ndarray"

record ('r, 'fs) world =
  rng :: 'r
  fs :: 'fs
  trace :: "event list"

definition emit :: "event \<Rightarrow> ('r, 'fs) world \<Rightarrow> ('r, 'fs) world" where
  "emit e w = w\<lparr>trace := trace w @ [e]\<rparr>"

text \<open>The libraries the module calls, and the GAN object it is given.\<close>

record ('r, 'fs) extern =
  tf_truncated_normal :: "'r \<Rightarrow> nat list \<Rightarrow> real ndarray \<times> 'r"
  tf_uniform :: "'r \<Rightarrow> nat list \<Rightarrow> real ndarray \<times> 'r"
  scale_images :: "real ndarray \<Rightarrow> nat list \<Rightarrow> real ndarray"
  calculate_fid :: "real ndarray \<Rightarrow> real ndarray \<Rightarrow> real"
  os_walk :: "'fs \<Rightarrow> string \<Rightarrow> (string \<times> string list \<times> string list) list"
  cv2_imwrite :: "'fs \<Rightarrow> string \<Rightarrow> 8 word ndarray \<Rightarrow> 'fs"
  tf_nn_sigmoid :: "real ndarray \<Rightarrow> real ndarray"
  uint8_out_of_range :: "real \<Rightarrow> 8 word"

record gan =
  latent_dim :: nat
  num_classes :: int
  call :: "real ndarray \<times> real ndarray \<Rightarrow> bool \<Rightarrow> real ndarray"
  discriminator :: "real ndarray \<Rightarrow> real ndarray \<Rightarrow> bool \<Rightarrow> real ndarray"

text \<open>\<^verbatim>\<open>tf.math.floor(gan.num_classes * tf.random.uniform(shape))\<close>: the number of classes
  becomes a \<^verbatim>\<open>float32\<close> number, the product is rounded, the floor of a float is exact.\<close>

definition random_labels_of :: "gan \<Rightarrow> real ndarray \<Rightarrow> real ndarray" where
  "random_labels_of g u =
     tmap (\<lambda>x. of_int \<lfloor>x\<rfloor>) (tmap (\<lambda>x. f32_round (f32_round (of_int (num_classes g)) * x)) u)"

text \<open>\<^verbatim>\<open>astype('uint8')\<close> of a float: truncation towards zero where the result is a byte
  (for \<open>-1 < x < 256\<close>); what other floats become is left to the platform.\<close>

definition astype_uint8 :: "('r, 'fs) extern \<Rightarrow> real \<Rightarrow> 8 word" where
  "astype_uint8 L x =
     (if - 1 < x \<and> x < 256 then word_of_int (if 0 \<le> x then \<lfloor>x\<rfloor> else \<lceil>x\<rceil>)
      else uint8_out_of_range L x)"

subsection \<open>Python and library functions with a fixed meaning\<close>

text \<open>\<^verbatim>\<open>int(round(np.sqrt(n_imgs)))\<close>\<close>

definition grid_side :: "nat \<Rightarrow> nat" where
  "grid_side n_imgs = nat (py_round (sqrt (real n_imgs)))"

text \<open>\<^verbatim>\<open>str(n)\<close> of a non-negative integer: its decimal digits.\<close>

definition digit_char :: "nat \<Rightarrow> char" where
  "digit_char d = ''0123456789'' ! d"

fun str_nat :: "nat \<Rightarrow> string" where
  "str_nat n = (if n < 10 then [digit_char n] else str_nat (n div 10) @ [digit_char (n mod 10)])"

text \<open>\<^verbatim>\<open>os.path.join(a, b)\<close> (posixpath).\<close>

definition os_path_join :: "string \<Rightarrow> string \<Rightarrow> string" where
  "os_path_join a b =
     (if b \<noteq> [] \<and> hd b = CHR ''/'' then b
      else if a = [] \<or> last a = CHR ''/'' then a @ b
      else a @ ''/'' @ b)"

text \<open>\<^verbatim>\<open>imshow\<close> takes an image of shape \<open>(M, N)\<close>, \<open>(M, N, 3)\<close> or \<open>(M, N, 4)\<close> and raises
  \<^verbatim>\<open>TypeError\<close> on any other.\<close>

definition imshow_ok :: "nat list \<Rightarrow> bool" where
  "imshow_ok s = (length s = 2 \<or> length s = 3 \<and> (last s = 3 \<or> last s = 4))"

text \<open>\<^verbatim>\<open>plt.plot(ys, label=l)\<close> with no x values draws \<open>ys\<close> against its indices.\<close>

definition plt_plot :: "real list \<Rightarrow> string \<Rightarrow> event" where
  "plt_plot ys l = PltPlot (zip (map real [0..<length ys]) ys) l"

text \<open>\<^verbatim>\<open>cv2.imwrite(filename, img)\<close>: the call is recorded and changes the file system.\<close>

definition imwrite ::
  "('r, 'fs) extern \<Rightarrow> string \<Rightarrow> 8 word ndarray \<Rightarrow> ('r, 'fs) world \<Rightarrow> ('r, 'fs) world" where
  "imwrite L filename img w = emit (Cv2Imwrite filename img) (w\<lparr>fs := cv2_imwrite L (fs w) filename img\<rparr>)"

subsection \<open>sample\<close>

text \<open>The training data set is the list of its batches, each a pair of images and labels;
  \<^verbatim>\<open>next(iter(train_dataset))\<close> raises on an empty one.\<close>

definition sample ::
  "('r, 'fs) extern \<Rightarrow> gan \<Rightarrow> (real ndarray \<times> real ndarray) list \<Rightarrow> ('r, 'fs) world
     \<Rightarrow> error option \<times> ('r, 'fs) world"
where
  "sample L g train_dataset w =
     (let (random_latent_vectors, r1) = tf_truncated_normal L (rng w) [1, latent_dim g];
          (u, r2) = tf_uniform L r1 [1, 1];
          random_labels = random_labels_of g u;
          gen_imgs = call g (random_latent_vectors, random_labels) False;
          w1 = emit (GanCall random_latent_vectors random_labels False) (w\<lparr>rng := r2\<rparr>)
      in case train_dataset of
           [] \<Rightarrow> (Some StopIteration, w1)
         | (real_imgs, real_labels) # _ \<Rightarrow>
             (case slice_to1 real_imgs of
                Inl e \<Rightarrow> (Some e, w1)
              | Inr real_img \<Rightarrow>
                  (case slice_to1 real_labels of
                     Inl e \<Rightarrow> (Some e, w1)
                   | Inr real_label \<Rightarrow>
                       (let pred_real = discriminator g real_img real_label False;
                            w2 = emit (DiscriminatorCall real_img real_label False) w1;
                            pred_gen = discriminator g gen_imgs random_labels False;
                            w3 = emit (DiscriminatorCall gen_imgs random_labels False) w2;
                            w4 = emit (PrintTensor ''Probability of real image being real:''
                                       (tf_nn_sigmoid L pred_real)) w3;
                            w5 = emit (PrintTensor ''Probability of generated image being real:''
                                       (tf_nn_sigmoid L pred_gen)) w4
                        in case index0 gen_imgs 0 of
                             Inl e \<Rightarrow> (Some e, w5)
                           | Inr img0 \<Rightarrow>
                               (let img = tmap normalize img0
                                in case shape_last img of
                                     Inl e \<Rightarrow> (Some e, w5)
                                   | Inr c \<Rightarrow>
                                       (let (shown, cmap) =
                                              (if c = 1 then (squeeze_last img, Some ''gray'')
                                               else (img, None));
                                            w6 = emit (PltTitle ''Generated image'') w5
                                        in if imshow_ok (shape shown)
                                           then (None, emit PltShow (emit (PltImshow shown cmap) w6))
                                           else (Some TypeError, w6)))))))"

subsection \<open>loss_curve\<close>

record callback_history =
  history :: "string \<rightharpoonup> real list"

definition loss_curve ::
  "callback_history \<Rightarrow> ('r, 'fs) world \<Rightarrow> error option \<times> ('r, 'fs) world"
where
  "loss_curve h w =
     (case history h ''g_loss'' of
        None \<Rightarrow> (Some KeyError, w)
      | Some g_loss \<Rightarrow>
          (let w1 = emit (plt_plot g_loss ''generator loss'') w
           in case history h ''d_loss'' of
                None \<Rightarrow> (Some KeyError, w1)
              | Some d_loss \<Rightarrow>
                  (None,
                   emit PltShow
                     (emit (PltLegend ''lower right'')
                       (emit (PltGrid ''y'')
                         (emit (PltYlabel ''Loss'')
                           (emit (PltXlabel ''Epoch'')
                             (emit (plt_plot d_loss ''discriminator loss'') w1))))))))"

subsection \<open>compute_fid\<close>

definition compute_fid ::
  "('r, 'fs) extern \<Rightarrow> gan \<Rightarrow> real ndarray \<Rightarrow> ('r, 'fs) world \<Rightarrow> (error + real) \<times> ('r, 'fs) world"
where
  "compute_fid L g real_images w =
     (case shape0 real_images of
        Inl e \<Rightarrow> (Inl e, w)
      | Inr num_images \<Rightarrow>
          (let (latent_samples, r1) = tf_truncated_normal L (rng w) [16, latent_dim g];
               (u, r2) = tf_uniform L r1 [16, 1];
               random_labels = random_labels_of g u;
               generated_images = call g (latent_samples, random_labels) False;
               w1 = emit (GanCall latent_samples random_labels False) (w\<lparr>rng := r2\<rparr>);
               images1 = scale_images L real_images [299, 299, 3];
               images2 = scale_images L generated_images [299, 299, 3];
               fid = calculate_fid L images1 images2
           in (Inr fid, emit (CalculateFid images1 images2) w1)))"

subsection \<open>plot_imgs_grid\<close>

text \<open>\<^verbatim>\<open>sum([len(files) for r, d, files in os.walk(path)])\<close>\<close>

definition file_counter_of :: "('r, 'fs) extern \<Rightarrow> 'fs \<Rightarrow> string \<Rightarrow> nat" where
  "file_counter_of L f path = sum_list (map (\<lambda>(r, d, files). length files) (os_walk L f path))"

text \<open>One iteration of the loop, for the axes at position \<open>i\<close>. The argument \<open>save\<close> is
  \<open>Some (path, file_counter)\<close> when \<^verbatim>\<open>if path:\<close> holds and \<open>None\<close> otherwise. \<^verbatim>\<open>imshow\<close>
  raises on an image it does not take, and \<^verbatim>\<open>cv2.imwrite\<close> on an image with no pixel.\<close>

definition plot_one ::
  "('r, 'fs) extern \<Rightarrow> real ndarray \<Rightarrow> (string \<times> nat) option \<Rightarrow> nat \<Rightarrow> ('r, 'fs) world
     \<Rightarrow> error option \<times> ('r, 'fs) world"
where
  "plot_one L imgs save i w =
     (case index0 imgs i of
        Inl e \<Rightarrow> (Some e, w)
      | Inr img0 \<Rightarrow>
          (let img = tmap normalize img0
           in case shape_last img of
                Inl e \<Rightarrow> (Some e, w)
              | Inr c \<Rightarrow>
                  (let (v, shown, cmap) =
                         (if c = 1
                          then (NumpyArray (squeeze_last img), squeeze_last img, Some ''gray'')
                          else (EagerTensor img, img, None))
                   in if \<not> imshow_ok (shape shown) then (Some TypeError, w)
                      else
                        (let w1 = emit (AxImshow i shown cmap) w
                         in case save of
                              None \<Rightarrow> (None, w1)
                            | Some (path, file_counter) \<Rightarrow>
                                (let name = ''Dog_'' @ str_nat (file_counter + i);
                                     image_path = os_path_join path name
                                 in case dot_numpy v of
                                      Inl e \<Rightarrow> (Some e, w1)
                                    | Inr a \<Rightarrow>
                                        (let img8 = tmap (astype_uint8 L) (tmap times_255 a)
                                         in if 0 \<in> set (shape img8) then (Some Cv2Error, w1)
                                            else
                                              (let w2 = imwrite L (image_path @ ''.jpg'') img8 w1
                                               in (None,
                                                   emit (Print (''Image saved as: '' @ name)) w2))))))))"

text \<open>\<^verbatim>\<open>for i, ax in enumerate(axes)\<close>: the axes are named by their position in the
  flattened grid; an exception ends the loop.\<close>

fun plot_loop ::
  "('r, 'fs) extern \<Rightarrow> real ndarray \<Rightarrow> (string \<times> nat) option \<Rightarrow> nat list \<Rightarrow> ('r, 'fs) world
     \<Rightarrow> error option \<times> ('r, 'fs) world"
where
  "plot_loop L imgs save [] w = (None, w)"
| "plot_loop L imgs save (i # axes) w =
     (case plot_one L imgs save i w of
        (Some e, w') \<Rightarrow> (Some e, w')
      | (None, w') \<Rightarrow> plot_loop L imgs save axes w')"

text \<open>\<^verbatim>\<open>plt.subplots\<close> raises for a grid with no row; \<^verbatim>\<open>np.reshape(axes, (-1,))\<close> gives
  the \<open>side * side\<close> axes in row-major order.\<close>

definition plot_imgs_grid ::
  "('r, 'fs) extern \<Rightarrow> real ndarray \<Rightarrow> string option \<Rightarrow> ('r, 'fs) world
     \<Rightarrow> error option \<times> ('r, 'fs) world"
where
  "plot_imgs_grid L imgs path w =
     (case shape0 imgs of
        Inl e \<Rightarrow> (Some e, w)
      | Inr n_imgs \<Rightarrow>
          (let side = grid_side n_imgs
           in if side = 0 then (Some ValueError, w)
              else
                (let w1 = emit (PltSubplots side side (n_imgs, n_imgs)) w;
                     save = (case path of
                               None \<Rightarrow> None
                             | Some p \<Rightarrow>
                                 if p \<noteq> [] then Some (p, file_counter_of L (fs w1) p) else None)
                 in case plot_loop L imgs save [0..<side * side] w1 of
                      (Some e, w2) \<Rightarrow> (Some e, w2)
                    | (None, w2) \<Rightarrow> (None, emit PltShow w2))))"

subsection \<open>generate_and_plot_images\<close>

definition generate_and_plot_images ::
  "('r, 'fs) extern \<Rightarrow> gan \<Rightarrow> nat \<Rightarrow> string option \<Rightarrow> ('r, 'fs) world
     \<Rightarrow> error option \<times> ('r, 'fs) world"
where
  "generate_and_plot_images L g num_images save_path w =
     (let (latent_samples, r1) = tf_truncated_normal L (rng w) [num_images, latent_dim g];
          (u, r2) = tf_uniform L r1 [num_images, 1];
          random_labels = random_labels_of g u;
          generated_images = call g (latent_samples, random_labels) False;
          w1 = emit (GanCall latent_samples random_labels False) (w\<lparr>rng := r2\<rparr>)
      in plot_imgs_grid L generated_images save_path w1)"

subsection \<open>Reading the trace\<close>

fun gan_calls :: "event list \<Rightarrow> (real ndarray \<times> real ndarray \<times> bool) list" where
  "gan_calls [] = []"
| "gan_calls (GanCall z l t # es) = (z, l, t) # gan_calls es"
| "gan_calls (_ # es) = gan_calls es"

fun fid_calls :: "event list \<Rightarrow> (real ndarray \<times> real ndarray) list" where
  "fid_calls [] = []"
| "fid_calls (CalculateFid a b # es) = (a, b) # fid_calls es"
| "fid_calls (_ # es) = fid_calls es"

text \<open>The images shown, with the position of the axes (\<open>None\<close> for \<^verbatim>\<open>plt.imshow\<close>) and
  the colour map.\<close>

fun imshows :: "event list \<Rightarrow> (nat option \<times> real ndarray \<times> string option) list" where
  "imshows [] = []"
| "imshows (AxImshow i v c # es) = (Some i, v, c) # imshows es"
| "imshows (PltImshow v c # es) = (None, v, c) # imshows es"
| "imshows (_ # es) = imshows es"

fun imwrites :: "event list \<Rightarrow> (string \<times> 8 word ndarray) list" where
  "imwrites [] = []"
| "imwrites (Cv2Imwrite f v # es) = (f, v) # imwrites es"
| "imwrites (_ # es) = imwrites es"

fun plots :: "event list \<Rightarrow> ((real \<times> real) list \<times> string) list" where
  "plots [] = []"
| "plots (PltPlot ps l # es) = (ps, l) # plots es"
| "plots (_ # es) = plots es"

subsection \<open>Notions used in the statements\<close>

text \<open>The slice \<^verbatim>\<open>t[i, ...]\<close> where it exists.\<close>

definition image_at :: "'a ndarray \<Rightarrow> nat \<Rightarrow> 'a ndarray" where
  "image_at t i =
     \<lparr>shape = tl (shape t),
      data = take (prod_list (tl (shape t))) (drop (i * prod_list (tl (shape t))) (data t))\<rparr>"

text \<open>The file name and the pixels that \<^verbatim>\<open>plot_imgs_grid\<close> passes to \<^verbatim>\<open>cv2.imwrite\<close>
  for image \<open>i\<close>, with \<open>c\<close> the file counter.\<close>

definition saved_name :: "string \<Rightarrow> nat \<Rightarrow> nat \<Rightarrow> string" where
  "saved_name p c i = os_path_join p (''Dog_'' @ str_nat (c + i)) @ ''.jpg''"

definition saved_pixels :: "('r, 'fs) extern \<Rightarrow> real ndarray \<Rightarrow> nat \<Rightarrow> 8 word ndarray" where
  "saved_pixels L imgs i =
     tmap (astype_uint8 L) (tmap times_255 (tmap normalize (image_at imgs i)))"

text \<open>What \<^verbatim>\<open>imshow\<close> is given for the image \<open>t\<close> on the axes \<open>ax\<close>: the normalized image,
  without its last axis and with the grey colour map when that axis has length 1.\<close>

definition shown_as :: "nat option \<Rightarrow> real ndarray \<Rightarrow> nat option \<times> real ndarray \<times> string option" where
  "shown_as ax t =
     (if last (shape t) = 1 then (ax, squeeze_last (tmap normalize t), Some ''gray'')
      else (ax, tmap normalize t, None))"

text \<open>An image shape that the module can show: it has an axis, and \<^verbatim>\<open>imshow\<close> takes it,
  without its last axis when that has length 1.\<close>

definition showable :: "nat list \<Rightarrow> bool" where
  "showable s = (s \<noteq> [] \<and> imshow_ok (if last s = 1 then butlast s else s))"

text \<open>\<^verbatim>\<open>if path:\<close>\<close>

definition saving :: "string option \<Rightarrow> bool" where
  "saving path = (case path of None \<Rightarrow> False | Some p \<Rightarrow> p \<noteq> [])"

text \<open>The number of images that \<^verbatim>\<open>plot_imgs_grid\<close> shows of \<open>n\<close> showable images of shape
  \<open>s\<close>: those that have axes in the grid, and only the first one when the images are to be
  saved and have a single channel (\<^verbatim>\<open>img.numpy()\<close> then raises).\<close>

definition plotted_count :: "nat \<Rightarrow> nat list \<Rightarrow> string option \<Rightarrow> nat" where
  "plotted_count n s path =
     (if saving path \<and> last s = 1 then min 1 (min n (grid_side n * grid_side n))
      else min n (grid_side n * grid_side n))"

text \<open>The draws of a generation path for \<open>k\<close> images: first the latent vectors, then the
  uniform numbers the labels are computed from.\<close>

definition latent_draw :: "('r, 'fs) extern \<Rightarrow> gan \<Rightarrow> nat \<Rightarrow> ('r, 'fs) world \<Rightarrow> real ndarray" where
  "latent_draw L g k w = fst (tf_truncated_normal L (rng w) [k, latent_dim g])"

definition uniform_draw :: "('r, 'fs) extern \<Rightarrow> gan \<Rightarrow> nat \<Rightarrow> ('r, 'fs) world \<Rightarrow> real ndarray" where
  "uniform_draw L g k w =
     fst (tf_uniform L (snd (tf_truncated_normal L (rng w) [k, latent_dim g])) [k, 1])"



definition scale_images_to_shape :: "('r, 'fs) extern \<Rightarrow> bool" where
  "scale_images_to_shape L = (\<forall>t s. tl (shape (scale_images L t s)) = s)"

subsection \<open>A small instance of the libraries\<close>

text \<open>Constant draws of the requested shape, a resize that fills the target shape with
  zeros, a metric that returns the number of images it is given, and a file system that
  is a list of named files, of which \<^verbatim>\<open>os.walk(p)\<close> lists those whose name starts with \<open>p\<close> and
  a separator.\<close>

definition flat_extern :: "(nat, (string \<times> 8 word ndarray) list) extern" where
  "flat_extern =
     \<lparr>tf_truncated_normal = (\<lambda>r s. (\<lparr>shape = s, data = replicate (prod_list s) 0\<rparr>, Suc r)),
      tf_uniform = (\<lambda>r s. (\<lparr>shape = s, data = replicate (prod_list s) (1 / 2)\<rparr>, Suc r)),
      scale_images =
        (\<lambda>t s. \<lparr>shape = hd (shape t) # s, data = replicate (hd (shape t) * prod_list s) 0\<rparr>),
      calculate_fid = (\<lambda>a b. real (hd (shape a)) + real (hd (shape b))),
      os_walk = (\<lambda>f p. [(p, [], filter (\<lambda>n. take (length p + 1) n = p @ ''/'') (map fst f))]),
      cv2_imwrite = (\<lambda>f p img. (p, img) # f),
      tf_nn_sigmoid = (\<lambda>t. t),
      uint8_out_of_range = (\<lambda>x. 0)\<rparr>"

text \<open>A generator that returns, for each latent vector, one \<open>1 \<times> 1\<close> image with three
  channels, all pixels \<open>0\<close>.\<close>

definition flat_gan :: gan where
  "flat_gan =
     \<lparr>latent_dim = 2, num_classes = 3,
      call = (\<lambda>(z, l) training.
        \<lparr>shape = [hd (shape z), 1, 1, 3], data = replicate (hd (shape z) * 3) 0\<rparr>),
      discriminator = (\<lambda>x l training. \<lparr>shape = [hd (shape x), 1], data = replicate (hd (shape x)) 0\<rparr>)\<rparr>"

definition world0 :: "(nat, (string \<times> 8 word ndarray) list) world" where
  "world0 = \<lparr>rng = 0, fs = [], trace = []\<rparr>"

definition one_img :: "real ndarray" where
  "one_img = \<lparr>shape = [1, 1, 1, 3], data = [-1, 0, 1]\<rparr>"

definition two_imgs :: "real ndarray" where
  "two_imgs = \<lparr>shape = [2, 1, 1, 3], data = [-1, 0, 1, 0, 0, 0]\<rparr>"

definition three_imgs :: "real ndarray" where
  "three_imgs = \<lparr>shape = [3, 1, 1, 3], data = [-1, 0, 1, 0, 0, 0, 1, 1, 1]\<rparr>"

definition gray_img :: "real ndarray" where
  "gray_img = \<lparr>shape = [1, 1, 1, 1], data = [0]\<rparr>"

definition world1 :: "(nat, (string \<times> 8 word ndarray) list) world" where
  "world1 = \<lparr>rng = 0, fs = [(''out/readme.txt'', \<lparr>shape = [], data = []\<rparr>)], trace = []\<rparr>"


definition demo_history :: callback_history where
  "demo_history =
     \<lparr>history = [''loss'' \<mapsto> [5, 4], ''g_loss'' \<mapsto> [3, 2], ''d_loss'' \<mapsto> [1, 2]]\<rparr>"

section \<open>Properties\<close>

subsection \<open>Rounding to float32\<close>

lemma py_round_between:
  assumes "of_int r - 1 / 2 < x" and "x < of_int r + 1 / 2"
  shows "py_round x = r"
proof -
  have "\<lfloor>x\<rfloor> = r - 1 \<or> \<lfloor>x\<rfloor> = r"
    using assms by linarith
  then show ?thesis
  proof
    assume f: "\<lfloor>x\<rfloor> = r - 1"
    have "x < of_int r" using f by linarith
    then show ?thesis using assms f by (simp add: py_round_def Let_def)
  next
    assume f: "\<lfloor>x\<rfloor> = r"
    then show ?thesis using assms by (simp add: py_round_def Let_def)
  qed
qed

lemma py_round_of_int [simp]: "py_round (of_int k) = k"
  by (rule py_round_between) simp_all

lemma py_round_cases: "py_round x = \<lfloor>x\<rfloor> \<or> py_round x = \<lfloor>x\<rfloor> + 1"
  by (simp add: py_round_def Let_def)

lemma py_round_mono:
  assumes "x \<le> y"
  shows "py_round x \<le> py_round y"
proof (cases "\<lfloor>x\<rfloor> = \<lfloor>y\<rfloor>")
  case True
  have "x - of_int \<lfloor>y\<rfloor> \<le> y - of_int \<lfloor>y\<rfloor>" using assms by simp
  then show ?thesis
    using True by (auto simp: py_round_def Let_def)
next
  case False
  have "\<lfloor>x\<rfloor> \<le> \<lfloor>y\<rfloor>" using assms by (rule floor_mono)
  then have "\<lfloor>x\<rfloor> + 1 \<le> \<lfloor>y\<rfloor>" using False by simp
  moreover have "py_round x \<le> \<lfloor>x\<rfloor> + 1" using py_round_cases[of x] by auto
  moreover have "\<lfloor>y\<rfloor> \<le> py_round y" using py_round_cases[of y] by auto
  ultimately show ?thesis by linarith
qed

lemma py_round_le: "x \<le> of_int k \<Longrightarrow> py_round x \<le> k"
  using py_round_mono[of x "of_int k"] by simp

lemma py_round_ge: "of_int k \<le> x \<Longrightarrow> k \<le> py_round x"
  using py_round_mono[of "of_int k" x] by simp

lemma floor_log2_bounds:
  assumes "0 < x"
  shows "2 powi \<lfloor>log 2 x\<rfloor> \<le> x" and "x < 2 powi (\<lfloor>log 2 x\<rfloor> + 1)"
proof -
  have a: "2 powr real_of_int k = 2 powi k" for k
    by (rule powr_real_of_int') simp_all
  have b: "2 powr (real_of_int k + 1) = 2 powi (k + 1)" for k
    using a[of "k + 1"] by simp
  have "2 powr real_of_int \<lfloor>log 2 x\<rfloor> \<le> x \<and> x < 2 powr (real_of_int \<lfloor>log 2 x\<rfloor> + 1)"
    using floor_log_eq_powr_iff[of x 2 "\<lfloor>log 2 x\<rfloor>"] assms by simp
  then show "2 powi \<lfloor>log 2 x\<rfloor> \<le> x" and "x < 2 powi (\<lfloor>log 2 x\<rfloor> + 1)"
    by (simp_all add: a b)
qed

lemma floor_log2_eq:
  assumes "2 powi e \<le> x" and "x < 2 powi (e + 1)"
  shows "\<lfloor>log 2 x\<rfloor> = e"
proof -
  have pos: "0 < x" using assms(1) by (smt (verit) zero_less_power_int)
  have a: "2 powr real_of_int k = 2 powi k" for k
    by (rule powr_real_of_int') simp_all
  have b: "2 powr (real_of_int k + 1) = 2 powi (k + 1)" for k
    using a[of "k + 1"] by simp
  have "2 powr real_of_int e \<le> x \<and> x < 2 powr (real_of_int e + 1)"
    using assms by (simp add: a b)
  then show ?thesis
    using floor_log_eq_powr_iff[of x 2 e] pos by simp
qed

lemma f32_ulp_pos [simp]: "0 < f32_ulp x"
  by (simp add: f32_ulp_def)

lemma f32_ulp_nonneg [simp]: "0 \<le> f32_ulp x"
  using f32_ulp_pos[of x] by (rule less_imp_le)

lemma f32_exponent_mono:
  assumes "0 < x" and "x \<le> y"
  shows "f32_exponent x \<le> f32_exponent y"
proof -
  have "log 2 x \<le> log 2 y" using assms by simp
  then have "\<lfloor>log 2 x\<rfloor> \<le> \<lfloor>log 2 y\<rfloor>" by (rule floor_mono)
  then show ?thesis using assms by (simp add: f32_exponent_def)
qed

lemma pow2_split: "(2::real) powi (e + 1) = 2 ^ 24 * 2 powi (e - 23)"
proof -
  have "(2::real) powi (24 + (e - 23)) = 2 powi 24 * 2 powi (e - 23)"
    by (rule power_int_add) simp
  moreover have "24 + (e - 23) = e + 1" by simp
  ultimately have "(2::real) powi (e + 1) = 2 powi 24 * 2 powi (e - 23)" by metis
  then show ?thesis by simp
qed

lemma pow2_split': "(2::real) powi e = 2 ^ 23 * 2 powi (e - 23)"
proof -
  have "(2::real) powi (23 + (e - 23)) = 2 powi 23 * 2 powi (e - 23)"
    by (rule power_int_add) simp
  moreover have "23 + (e - 23) = e" by simp
  ultimately have "(2::real) powi e = 2 powi 23 * 2 powi (e - 23)" by metis
  then show ?thesis by simp
qed

lemma f32_round_upper:
  assumes "0 < x"
  shows "f32_round x \<le> 2 powi (f32_exponent x + 1)"
proof -
  let ?e = "f32_exponent x"
  have "x < 2 powi (\<lfloor>log 2 x\<rfloor> + 1)" using assms by (rule floor_log2_bounds)
  also have "\<dots> \<le> 2 powi (?e + 1)"
    using assms by (intro power_int_increasing) (simp_all add: f32_exponent_def)
  finally have "x < 2 ^ 24 * f32_ulp x" by (simp add: pow2_split f32_ulp_def)
  then have "x / f32_ulp x \<le> of_int (2 ^ 24)" by (simp add: pos_divide_le_eq)
  then have "py_round (x / f32_ulp x) \<le> 2 ^ 24" by (rule py_round_le)
  then have "real_of_int (py_round (x / f32_ulp x)) \<le> real_of_int (2 ^ 24)"
    by (simp only: of_int_le_iff)
  then have "of_int (py_round (x / f32_ulp x)) * f32_ulp x \<le> 2 ^ 24 * f32_ulp x"
    by (intro mult_right_mono) simp_all
  then show ?thesis using assms by (simp add: f32_round_def pow2_split[of ?e] f32_ulp_def)
qed

lemma f32_round_lower:
  assumes "0 < y" and "- 126 < f32_exponent y"
  shows "2 powi (f32_exponent y) \<le> f32_round y"
proof -
  let ?e = "f32_exponent y"
  have e: "?e = \<lfloor>log 2 y\<rfloor>" using assms by (simp add: f32_exponent_def max_def split: if_splits)
  have "2 powi ?e \<le> y" unfolding e using assms(1) by (rule floor_log2_bounds)
  then have "2 ^ 23 * f32_ulp y \<le> y" by (simp add: pow2_split'[of ?e] f32_ulp_def)
  then have "of_int (2 ^ 23) \<le> y / f32_ulp y" by (simp add: pos_le_divide_eq)
  then have "2 ^ 23 \<le> py_round (y / f32_ulp y)" by (rule py_round_ge)
  then have "real_of_int (2 ^ 23) \<le> real_of_int (py_round (y / f32_ulp y))"
    by (simp only: of_int_le_iff)
  then have "2 ^ 23 * f32_ulp y \<le> of_int (py_round (y / f32_ulp y)) * f32_ulp y"
    by (intro mult_right_mono) simp_all
  then show ?thesis using assms by (simp add: f32_round_def pow2_split'[of ?e] f32_ulp_def)
qed

lemma f32_round_nonneg:
  assumes "0 \<le> x"
  shows "0 \<le> f32_round x"
proof -
  have "of_int 0 \<le> x / f32_ulp x" using assms by simp
  then have "0 \<le> py_round (x / f32_ulp x)" by (rule py_round_ge)
  then show ?thesis by (simp add: f32_round_def)
qed

lemma f32_round_mono:
  assumes "0 \<le> x" and "x \<le> y"
  shows "f32_round x \<le> f32_round y"
proof (cases "x = 0")
  case True
  then show ?thesis using f32_round_nonneg[of y] assms by (simp add: f32_round_def)
next
  case False
  then have x: "0 < x" and y: "0 < y" using assms by simp_all
  have le: "f32_exponent x \<le> f32_exponent y" using x assms(2) by (rule f32_exponent_mono)
  show ?thesis
  proof (cases "f32_exponent x = f32_exponent y")
    case True
    then have u: "f32_ulp x = f32_ulp y" by (simp add: f32_ulp_def)
    have "x / f32_ulp y \<le> y / f32_ulp y" using assms(2) by (intro divide_right_mono) simp_all
    then have "py_round (x / f32_ulp y) \<le> py_round (y / f32_ulp y)" by (rule py_round_mono)
    then have "of_int (py_round (x / f32_ulp y)) * f32_ulp y \<le> of_int (py_round (y / f32_ulp y)) * f32_ulp y"
      by (intro mult_right_mono) simp_all
    then show ?thesis using x y by (simp add: f32_round_def u)
  next
    case False
    then have lt: "f32_exponent x + 1 \<le> f32_exponent y" using le by simp
    have "- 126 \<le> f32_exponent x" by (simp add: f32_exponent_def)
    then have big: "- 126 < f32_exponent y" using lt by simp
    have "f32_round x \<le> 2 powi (f32_exponent x + 1)" using x by (rule f32_round_upper)
    also have "\<dots> \<le> 2 powi (f32_exponent y)" using lt by (intro power_int_increasing) simp_all
    also have "\<dots> \<le> f32_round y" using y big by (rule f32_round_lower)
    finally show ?thesis .
  qed
qed

lemma f32_exponent_eq:
  assumes "2 powi e \<le> x" and "x < 2 powi (e + 1)" and "- 126 \<le> e"
  shows "f32_exponent x = e"
proof -
  have pos: "0 < x" using assms(1) by (smt (verit) zero_less_power_int)
  have "\<lfloor>log 2 x\<rfloor> = e" using assms(1,2) by (rule floor_log2_eq)
  then show ?thesis using pos assms(3) by (simp add: f32_exponent_def)
qed

lemma f32_round_scaled:
  assumes "2 powi e \<le> x" and "x < 2 powi (e + 1)" and "- 126 \<le> e"
  shows "f32_round x = of_int (py_round (x / 2 powi (e - 23))) * 2 powi (e - 23)"
proof -
  have pos: "0 < x" using assms(1) by (smt (verit) zero_less_power_int)
  have "f32_exponent x = e" using assms by (rule f32_exponent_eq)
  then show ?thesis using pos by (simp add: f32_round_def f32_ulp_def)
qed

lemma f32_round_exact:
  assumes "2 powi e \<le> x" and "x < 2 powi (e + 1)" and "- 126 \<le> e"
    and "x = of_int m * 2 powi (e - 23)"
  shows "f32_round x = x"
proof -
  have "x / 2 powi (e - 23) = of_int m" using assms(4) by simp
  then show ?thesis using f32_round_scaled[OF assms(1-3)] assms(4) by simp
qed

lemma f32_round_0 [simp]: "f32_round 0 = 0"
  by (simp add: f32_round_def)

lemma f32_round_1 [simp]: "f32_round 1 = 1"
  by (rule f32_round_exact[where e = 0 and m = "2 ^ 23"]) (simp_all add: power_int_minus)

lemma f32_round_2 [simp]: "f32_round 2 = 2"
  by (rule f32_round_exact[where e = 1 and m = "2 ^ 23"]) (simp_all add: power_int_minus)

lemma f32_round_half [simp]: "f32_round (1 / 2) = 1 / 2"
  by (rule f32_round_exact[where e = "- 1" and m = "2 ^ 23"]) (simp_all add: power_int_minus)

lemma f32_round_3 [simp]: "f32_round 3 = 3"
  by (rule f32_round_exact[where e = 1 and m = "3 * 2 ^ 22"]) (simp_all add: power_int_minus)

lemma f32_round_3_2 [simp]: "f32_round (3 / 2) = 3 / 2"
  by (rule f32_round_exact[where e = 0 and m = "3 * 2 ^ 22"]) (simp_all add: power_int_minus)

lemma f32_round_255 [simp]: "f32_round 255 = 255"
  by (rule f32_round_exact[where e = 7 and m = "255 * 2 ^ 16"]) (simp_all add: power_int_minus)

lemma f32_round_255_2 [simp]: "f32_round (255 / 2) = 255 / 2"
  by (rule f32_round_exact[where e = 6 and m = "255 * 2 ^ 16"]) (simp_all add: power_int_minus)






subsection \<open>The side of the grid\<close>

lemma grid_side_between:
  assumes "0 < r" and "(2 * r - 1)\<^sup>2 < 4 * n" and "4 * n < (2 * r + 1)\<^sup>2"
  shows "grid_side n = r"
proof -
  have lo: "(real r - 1 / 2)\<^sup>2 < real n"
  proof -
    have "real ((2 * r - 1)\<^sup>2) < real (4 * n)" using assms(2) by (rule iffD2[OF of_nat_less_iff])
    moreover have "real (2 * r - 1) = 2 * real r - 1" using assms(1) by (simp add: of_nat_diff)
    ultimately have "(2 * real r - 1)\<^sup>2 < 4 * real n" by simp
    then show ?thesis by (simp add: power2_eq_square algebra_simps)
  qed
  have hi: "real n < (real r + 1 / 2)\<^sup>2"
  proof -
    have "real (4 * n) < real ((2 * r + 1)\<^sup>2)" using assms(3) by (rule iffD2[OF of_nat_less_iff])
    then have "4 * real n < (2 * real r + 1)\<^sup>2" by (simp add: add.commute)
    then show ?thesis by (simp add: power2_eq_square algebra_simps)
  qed
  have "real r - 1 / 2 < sqrt (real n)"
    using lo by (rule real_less_rsqrt)
  moreover have "sqrt (real n) < real r + 1 / 2"
    using hi by (intro real_less_lsqrt) auto
  ultimately have "py_round (sqrt (real n)) = int r"
    by (intro py_round_between) auto
  then show ?thesis by (simp add: grid_side_def)
qed

lemma grid_side_square: "grid_side (k * k) = k"
proof (cases "k = 0")
  case True
  then show ?thesis by (simp add: grid_side_def py_round_def)
next
  case False
  have "sqrt (real (k * k)) = real k" by simp
  then show ?thesis by (simp add: grid_side_def py_round_def)
qed

lemma grid_side_0: "grid_side 0 = 0"
  using grid_side_square[of 0] by simp

lemma grid_side_1: "grid_side (Suc 0) = Suc 0"
  using grid_side_square[of 1] by simp

lemma grid_side_2: "grid_side 2 = 1"
  by (rule grid_side_between) simp_all

lemma grid_side_3: "grid_side 3 = 2"
  by (rule grid_side_between) simp_all

lemma grid_side_pos:
  assumes "0 < n"
  shows "0 < grid_side n"
proof -
  have "1 \<le> sqrt (real n)" using assms by simp
  then have "of_int 1 \<le> sqrt (real n)" by simp
  then have "1 \<le> py_round (sqrt (real n))" by (rule py_round_ge)
  then show ?thesis by (simp add: grid_side_def)
qed

subsection \<open>Pixels\<close>

lemma normalize_values: "normalize (- 1) = 0" "normalize 0 = 1 / 2" "normalize 1 = 1"
  by (simp_all add: normalize_def)

lemma times_255_values: "times_255 0 = 0" "times_255 (1 / 2) = 255 / 2" "times_255 1 = 255"
  by (simp_all add: times_255_def)

lemma astype_uint8_values:
  "astype_uint8 L 0 = 0" "astype_uint8 L (255 / 2) = 127" "astype_uint8 L 255 = 255"
  by (simp_all add: astype_uint8_def)

lemma normalize_range:
  assumes "- 1 \<le> x" and "x \<le> 1"
  shows "0 \<le> normalize x" and "normalize x \<le> 1"
proof -
  have a: "0 \<le> f32_round (x + 1)" using assms by (intro f32_round_nonneg) simp
  have "f32_round (x + 1) \<le> f32_round 2" using assms by (intro f32_round_mono) simp_all
  then have b: "f32_round (x + 1) \<le> 2" by simp
  show "0 \<le> normalize x" unfolding normalize_def using a by (intro f32_round_nonneg) simp
  have "f32_round (f32_round (x + 1) / 2) \<le> f32_round 1"
    using a b by (intro f32_round_mono) simp_all
  then show "normalize x \<le> 1" by (simp add: normalize_def)
qed

lemma times_255_range:
  assumes "0 \<le> y" and "y \<le> 1"
  shows "0 \<le> times_255 y" and "times_255 y \<le> 255"
proof -
  show "0 \<le> times_255 y" unfolding times_255_def using assms by (intro f32_round_nonneg) simp
  have "f32_round (255 * y) \<le> f32_round 255" using assms by (intro f32_round_mono) simp_all
  then show "times_255 y \<le> 255" by (simp add: times_255_def)
qed

lemma astype_uint8_byte:
  assumes "0 \<le> z" and "z \<le> 255"
  shows "astype_uint8 L z = word_of_int \<lfloor>z\<rfloor>" and "uint (astype_uint8 L z) = \<lfloor>z\<rfloor>"
proof -
  show a: "astype_uint8 L z = word_of_int \<lfloor>z\<rfloor>" using assms by (simp add: astype_uint8_def)
  have "0 \<le> \<lfloor>z\<rfloor>" using assms by simp
  moreover have "\<lfloor>z\<rfloor> < 256" using assms by (simp add: floor_less_iff)
  ultimately show "uint (astype_uint8 L z) = \<lfloor>z\<rfloor>"
    unfolding a by (simp add: uint_word_of_int take_bit_eq_mod)
qed

subsection \<open>The trace and the loop of plot_imgs_grid\<close>

lemma trace_log [simp]: "trace (emit e w) = trace w @ [e]"
  and fs_log [simp]: "fs (emit e w) = fs w"
  and rng_log [simp]: "rng (emit e w) = rng w"
  by (simp_all add: emit_def)

lemma trace_imwrite [simp]: "trace (imwrite L f v w) = trace w @ [Cv2Imwrite f v]"
  by (simp add: imwrite_def)

lemma gan_calls_append [simp]: "gan_calls (xs @ ys) = gan_calls xs @ gan_calls ys"
  by (induction xs rule: gan_calls.induct) simp_all

lemma fid_calls_append [simp]: "fid_calls (xs @ ys) = fid_calls xs @ fid_calls ys"
  by (induction xs rule: fid_calls.induct) simp_all

lemma imshows_append [simp]: "imshows (xs @ ys) = imshows xs @ imshows ys"
  by (induction xs rule: imshows.induct) simp_all

lemma imwrites_append [simp]: "imwrites (xs @ ys) = imwrites xs @ imwrites ys"
  by (induction xs rule: imwrites.induct) simp_all

lemma plots_append [simp]: "plots (xs @ ys) = plots xs @ plots ys"
  by (induction xs rule: plots.induct) simp_all

lemma plot_loop_append:
  "plot_loop L imgs save (xs @ ys) w =
     (case plot_loop L imgs save xs w of
        (Some e, w') \<Rightarrow> (Some e, w')
      | (None, w') \<Rightarrow> plot_loop L imgs save ys w')"
  by (induction xs arbitrary: w) (auto split: prod.splits option.splits)

lemma plot_one_out_of_bounds:
  "shape imgs = n # s \<Longrightarrow> n \<le> i \<Longrightarrow> plot_one L imgs save i w = (Some InvalidArgumentError, w)"
  by (simp add: plot_one_def index0_def)

lemma index0_in_bounds: "shape t = n # s \<Longrightarrow> i < n \<Longrightarrow> index0 t i = Inr (image_at t i)"
  by (simp add: index0_def image_at_def)

lemma shape_tmap [simp]: "shape (tmap f t) = shape t"
  and data_tmap [simp]: "data (tmap f t) = map f (data t)"
  by (simp_all add: tmap_def)

lemma shape_image_at [simp]: "shape (image_at t i) = tl (shape t)"
  by (simp add: image_at_def)

subsection \<open>Invariants of the loop and of plot_imgs_grid\<close>

lemma plot_loop_invariant:
  assumes step: "\<And>i w. R w (snd (plot_one L imgs save i w))"
    and refl: "\<And>w. R w w"
    and trans: "\<And>a b c. R a b \<Longrightarrow> R b c \<Longrightarrow> R a c"
  shows "R w (snd (plot_loop L imgs save is w))"
proof (induction "is" arbitrary: w)
  case Nil
  show ?case by (simp add: refl)
next
  case (Cons i "is")
  obtain eo w' where one: "plot_one L imgs save i w = (eo, w')"
    by (cases "plot_one L imgs save i w")
  have first: "R w w'" using step[of w i] one by simp
  show ?case
  proof (cases eo)
    case None
    then have "snd (plot_loop L imgs save (i # is) w) = snd (plot_loop L imgs save is w')"
      using one by simp
    then show ?thesis using trans[OF first Cons.IH[of w']] by simp
  next
    case (Some e)
    then show ?thesis using one first by simp
  qed
qed

lemma plot_imgs_grid_invariant:
  assumes step: "\<And>save i w. (path = None \<or> path = Some [] \<Longrightarrow> save = None) \<Longrightarrow> R w (snd (plot_one L imgs save i w))"
    and subplots: "\<And>a b c w. R w (emit (PltSubplots a b c) w)"
    and pltshow: "\<And>w. R w (emit PltShow w)"
    and refl: "\<And>w. R w w"
    and trans: "\<And>a b c. R a b \<Longrightarrow> R b c \<Longrightarrow> R a c"
  shows "R w (snd (plot_imgs_grid L imgs path w))"
proof (cases "shape0 imgs")
  case (Inl e)
  then show ?thesis by (simp add: plot_imgs_grid_def refl)
next
  case (Inr n)
  show ?thesis
  proof (cases "grid_side n = 0")
    case True
    then show ?thesis using Inr by (simp add: plot_imgs_grid_def refl)
  next
    case False
    define w1 where "w1 = emit (PltSubplots (grid_side n) (grid_side n) (n, n)) w"
    define save where "save = (case path of None \<Rightarrow> None
        | Some p \<Rightarrow> if p \<noteq> [] then Some (p, file_counter_of L (fs w1) p) else None)"
    define r where "r = plot_loop L imgs save [0..<grid_side n * grid_side n] w1"
    have sv: "path = None \<or> path = Some [] \<Longrightarrow> save = None"
      by (auto simp: save_def)
    have eq: "plot_imgs_grid L imgs path w =
        (case r of (Some e, w2) \<Rightarrow> (Some e, w2) | (None, w2) \<Rightarrow> (None, emit PltShow w2))"
      using Inr False unfolding plot_imgs_grid_def Let_def w1_def save_def r_def by simp
    have a: "R w w1" unfolding w1_def by (rule subplots)
    have b: "R w1 (snd r)" unfolding r_def
      by (rule plot_loop_invariant[where R = R, OF step refl trans]) (use sv in auto)
    have c: "R (snd r) (snd (plot_imgs_grid L imgs path w))"
      unfolding eq by (cases r; cases "fst r") (auto simp: refl pltshow)
    show ?thesis using trans[OF trans[OF a b] c] .
  qed
qed

lemma plot_one_frame:
  "gan_calls (trace (snd (plot_one L imgs save i w))) = gan_calls (trace w) \<and>
   rng (snd (plot_one L imgs save i w)) = rng w"
  by (auto simp: plot_one_def Let_def imwrite_def emit_def split: sum.splits option.splits prod.splits)

lemma plot_one_no_save_frame:
  "fs (snd (plot_one L imgs None i w)) = fs w \<and>
   imwrites (trace (snd (plot_one L imgs None i w))) = imwrites (trace w)"
  by (auto simp: plot_one_def Let_def split: sum.splits option.splits prod.splits)

lemma plot_imgs_grid_frame:
  "gan_calls (trace (snd (plot_imgs_grid L imgs path w))) = gan_calls (trace w) \<and>
   rng (snd (plot_imgs_grid L imgs path w)) = rng w"
  by (rule plot_imgs_grid_invariant[where R = "\<lambda>w w'. gan_calls (trace w') = gan_calls (trace w) \<and> rng w' = rng w"])
     (simp_all add: plot_one_frame)

lemma plot_imgs_grid_no_save_frame:
  assumes "path = None \<or> path = Some []"
  shows "fs (snd (plot_imgs_grid L imgs path w)) = fs w \<and>
   imwrites (trace (snd (plot_imgs_grid L imgs path w))) = imwrites (trace w)"
  by (rule plot_imgs_grid_invariant[where R = "\<lambda>w w'. fs w' = fs w \<and> imwrites (trace w') = imwrites (trace w)"])
     (use assms in \<open>simp_all add: plot_one_no_save_frame\<close>)

subsection \<open>What plot_imgs_grid shows and writes\<close>

lemma fs_imwrite [simp]: "fs (imwrite L f v w) = cv2_imwrite L (fs w) f v"
  by (simp add: imwrite_def emit_def)

lemma rng_imwrite [simp]: "rng (imwrite L f v w) = rng w"
  by (simp add: imwrite_def emit_def)

lemma shown_as_image_at:
  assumes "shape imgs = n # s"
  shows "shown_as ax (image_at imgs i) =
     (if last s = 1 then (ax, squeeze_last (tmap normalize (image_at imgs i)), Some ''gray'')
      else (ax, tmap normalize (image_at imgs i), None))"
  using assms by (simp add: shown_as_def)

lemma plot_one_no_save:
  assumes "shape imgs = n # s" and "showable s" and "i < n"
  shows "plot_one L imgs None i w =
           (None, emit (if last s = 1
                       then AxImshow i (squeeze_last (tmap normalize (image_at imgs i))) (Some ''gray'')
                       else AxImshow i (tmap normalize (image_at imgs i)) None) w)"
  using assms
  by (cases "last s = 1")
     (simp_all add: plot_one_def index0_in_bounds shape_last_def Let_def showable_def
        squeeze_last_def)

lemma plot_one_save_colour:
  assumes "shape imgs = n # s" and "showable s" and "i < n" and "last s \<noteq> 1" and "0 \<notin> set s"
  shows "plot_one L imgs (Some (p, c)) i w =
           (None,
            emit (Print (''Image saved as: '' @ ''Dog_'' @ str_nat (c + i)))
              (imwrite L (saved_name p c i) (saved_pixels L imgs i)
                 (emit (AxImshow i (tmap normalize (image_at imgs i)) None) w)))"
  using assms
  by (simp add: plot_one_def index0_in_bounds shape_last_def Let_def dot_numpy_def showable_def
      saved_name_def saved_pixels_def)

lemma plot_one_save_gray:
  assumes "shape imgs = n # s" and "showable s" and "i < n" and "last s = 1"
  shows "plot_one L imgs (Some (p, c)) i w =
           (Some AttributeError,
            emit (AxImshow i (squeeze_last (tmap normalize (image_at imgs i))) (Some ''gray'')) w)"
  using assms
  by (simp add: plot_one_def index0_in_bounds shape_last_def Let_def dot_numpy_def showable_def
      squeeze_last_def)

lemma plot_loop_no_save:
  assumes "shape imgs = n # s" and "showable s" and "\<forall>i\<in>set is. i < n"
  shows "fst (plot_loop L imgs None is w) = None \<and>
         imshows (trace (snd (plot_loop L imgs None is w))) =
           imshows (trace w) @ map (\<lambda>i. shown_as (Some i) (image_at imgs i)) is"
  using assms(3)
proof (induction "is" arbitrary: w)
  case Nil
  then show ?case by simp
next
  case (Cons i "is")
  then have i: "i < n" and rest: "\<forall>j\<in>set is. j < n" by simp_all
  show ?case
    using Cons.IH[OF rest]
    by (simp add: plot_one_no_save[OF assms(1,2) i] shown_as_image_at[OF assms(1)])
qed

lemma plot_loop_save_colour:
  assumes "shape imgs = n # s" and "showable s" and "last s \<noteq> 1" and "0 \<notin> set s"
    and "\<forall>i\<in>set is. i < n"
  shows "fst (plot_loop L imgs (Some (p, c)) is w) = None \<and>
         imshows (trace (snd (plot_loop L imgs (Some (p, c)) is w))) =
           imshows (trace w) @ map (\<lambda>i. shown_as (Some i) (image_at imgs i)) is \<and>
         imwrites (trace (snd (plot_loop L imgs (Some (p, c)) is w))) =
           imwrites (trace w) @ map (\<lambda>i. (saved_name p c i, saved_pixels L imgs i)) is \<and>
         fs (snd (plot_loop L imgs (Some (p, c)) is w)) =
           foldl (\<lambda>f i. cv2_imwrite L f (saved_name p c i) (saved_pixels L imgs i)) (fs w) is"
  using assms(5)
proof (induction "is" arbitrary: w)
  case Nil
  then show ?case by simp
next
  case (Cons i "is")
  then have i: "i < n" and rest: "\<forall>j\<in>set is. j < n" by simp_all
  show ?case
    using Cons.IH[OF rest] assms(3)
    by (simp add: plot_one_save_colour[OF assms(1,2) i assms(3,4)] shown_as_image_at[OF assms(1)])
qed

lemma plot_loop_beyond:
  assumes "shape imgs = n # s" and "n \<le> a"
  shows "snd (plot_loop L imgs save [a..<b] w) = w"
proof (cases "a < b")
  case True
  then have "[a..<b] = a # [Suc a..<b]" by (rule upt_conv_Cons)
  then show ?thesis by (simp add: plot_one_out_of_bounds[OF assms])
next
  case False
  then show ?thesis by simp
qed

lemma snd_plot_loop_append:
  "fst (plot_loop L imgs save xs w) = None \<Longrightarrow>
   snd (plot_loop L imgs save (xs @ ys) w) = snd (plot_loop L imgs save ys (snd (plot_loop L imgs save xs w)))"
  by (cases "plot_loop L imgs save xs w") (simp add: plot_loop_append)

lemma upt_split_min: "[0..<m] = [0..<min n m] @ [min n m..<m]"
  by (metis le_add_diff_inverse min.cobounded2 upt_add_eq_append zero_le)

text \<open>The loop over the axes of the grid ends where the images end.\<close>

lemma plot_loop_cut:
  assumes "shape imgs = n # s" and ok: "fst (plot_loop L imgs save [0..<min n m] w) = None"
  shows "snd (plot_loop L imgs save [0..<m] w) = snd (plot_loop L imgs save [0..<min n m] w)"
proof -
  have "snd (plot_loop L imgs save ([0..<min n m] @ [min n m..<m]) w) =
        snd (plot_loop L imgs save [min n m..<m] (snd (plot_loop L imgs save [0..<min n m] w)))"
    using ok by (rule snd_plot_loop_append)
  also have "\<dots> = snd (plot_loop L imgs save [0..<min n m] w)"
  proof (cases "n \<le> m")
    case True
    then have "n \<le> min n m" by simp
    then show ?thesis by (rule plot_loop_beyond[OF assms(1)])
  next
    case False
    then show ?thesis by simp
  qed
  finally show ?thesis using upt_split_min[of m n] by simp
qed

lemma finish_grid:
  "trace (snd (case r of (Some e, w2) \<Rightarrow> (Some e, w2) | (None, w2) \<Rightarrow> (None, emit PltShow w2))) =
     trace (snd r) @ (if fst r = None then [PltShow] else [])"
  "fs (snd (case r of (Some e, w2) \<Rightarrow> (Some e, w2) | (None, w2) \<Rightarrow> (None, emit PltShow w2))) = fs (snd r)"
  "rng (snd (case r of (Some e, w2) \<Rightarrow> (Some e, w2) | (None, w2) \<Rightarrow> (None, emit PltShow w2))) = rng (snd r)"
  by (cases r; cases "fst r"; simp)+

text \<open>plot_imgs_grid as its loop, for a grid with a side, with and without saving.\<close>

lemma plot_imgs_grid_unsaved_eq:
  assumes "shape imgs = n # s" and "grid_side n \<noteq> 0" and "\<not> saving path"
  shows "plot_imgs_grid L imgs path w =
     (case plot_loop L imgs None [0..<grid_side n * grid_side n]
             (emit (PltSubplots (grid_side n) (grid_side n) (n, n)) w) of
        (Some e, w2) \<Rightarrow> (Some e, w2) | (None, w2) \<Rightarrow> (None, emit PltShow w2))"
proof -
  have "(case path of None \<Rightarrow> None
         | Some p \<Rightarrow> if p \<noteq> [] then Some (p, c p) else None) = None" for c :: "string \<Rightarrow> nat"
    using assms(3) by (cases path) (simp_all add: saving_def)
  then show ?thesis
    using assms(1,2) unfolding plot_imgs_grid_def Let_def shape0_def by simp
qed

lemma plot_imgs_grid_saved_eq:
  assumes "shape imgs = n # s" and "grid_side n \<noteq> 0" and "p \<noteq> []"
  shows "plot_imgs_grid L imgs (Some p) w =
     (case plot_loop L imgs (Some (p, file_counter_of L (fs w) p)) [0..<grid_side n * grid_side n]
             (emit (PltSubplots (grid_side n) (grid_side n) (n, n)) w) of
        (Some e, w2) \<Rightarrow> (Some e, w2) | (None, w2) \<Rightarrow> (None, emit PltShow w2))"
  using assms unfolding plot_imgs_grid_def Let_def shape0_def by simp

lemma plot_imgs_grid_no_side:
  assumes "shape imgs = n # s" and "grid_side n = 0"
  shows "plot_imgs_grid L imgs path w = (Some ValueError, w)"
  using assms by (simp add: plot_imgs_grid_def shape0_def)

lemma plot_imgs_grid_no_save:
  assumes "shape imgs = n # s" and "showable s" and "\<not> saving path"
  shows "imshows (trace (snd (plot_imgs_grid L imgs path w))) =
           imshows (trace w) @
           map (\<lambda>i. shown_as (Some i) (image_at imgs i)) [0..<min n (grid_side n * grid_side n)]"
proof (cases "grid_side n = 0")
  case True
  then show ?thesis by (simp add: plot_imgs_grid_no_side[OF assms(1)])
next
  case False
  let ?w1 = "emit (PltSubplots (grid_side n) (grid_side n) (n, n)) w"
  let ?k = "min n (grid_side n * grid_side n)"
  have inb: "\<forall>i\<in>set [0..<?k]. i < n" by simp
  note loop = plot_loop_no_save[OF assms(1,2) inb, of L ?w1]
  have cut: "snd (plot_loop L imgs None [0..<grid_side n * grid_side n] ?w1) =
      snd (plot_loop L imgs None [0..<?k] ?w1)"
    using assms(1) loop by (intro plot_loop_cut) simp_all
  show ?thesis
    unfolding plot_imgs_grid_unsaved_eq[OF assms(1) False assms(3)]
    by (simp add: finish_grid cut loop)
qed

lemma plot_imgs_grid_save_colour:
  assumes "shape imgs = n # s" and "showable s" and "last s \<noteq> 1" and "0 \<notin> set s"
    and "p \<noteq> []"
  shows "imshows (trace (snd (plot_imgs_grid L imgs (Some p) w))) =
           imshows (trace w) @
           map (\<lambda>i. shown_as (Some i) (image_at imgs i)) [0..<min n (grid_side n * grid_side n)] \<and>
         imwrites (trace (snd (plot_imgs_grid L imgs (Some p) w))) =
           imwrites (trace w) @
           map (\<lambda>i. (saved_name p (file_counter_of L (fs w) p) i, saved_pixels L imgs i))
             [0..<min n (grid_side n * grid_side n)] \<and>
         fs (snd (plot_imgs_grid L imgs (Some p) w)) =
           foldl (\<lambda>f i. cv2_imwrite L f (saved_name p (file_counter_of L (fs w) p) i)
                          (saved_pixels L imgs i))
             (fs w) [0..<min n (grid_side n * grid_side n)]"
proof (cases "grid_side n = 0")
  case True
  then show ?thesis by (simp add: plot_imgs_grid_no_side[OF assms(1)])
next
  case False
  let ?w1 = "emit (PltSubplots (grid_side n) (grid_side n) (n, n)) w"
  let ?c = "file_counter_of L (fs w) p"
  let ?k = "min n (grid_side n * grid_side n)"
  have inb: "\<forall>i\<in>set [0..<?k]. i < n" by simp
  note loop = plot_loop_save_colour[OF assms(1-4) inb, of L p ?c ?w1]
  have cut: "snd (plot_loop L imgs (Some (p, ?c)) [0..<grid_side n * grid_side n] ?w1) =
      snd (plot_loop L imgs (Some (p, ?c)) [0..<?k] ?w1)"
    using assms(1) loop by (intro plot_loop_cut) simp_all
  show ?thesis
    unfolding plot_imgs_grid_saved_eq[OF assms(1) False assms(5)]
    by (simp add: finish_grid cut loop)
qed

lemma plot_imgs_grid_save_gray:
  assumes "shape imgs = n # s" and "showable s" and "last s = 1" and "p \<noteq> []"
  shows "imshows (trace (snd (plot_imgs_grid L imgs (Some p) w))) =
           imshows (trace w) @
           map (\<lambda>i. shown_as (Some i) (image_at imgs i))
             [0..<min 1 (min n (grid_side n * grid_side n))] \<and>
         imwrites (trace (snd (plot_imgs_grid L imgs (Some p) w))) = imwrites (trace w) \<and>
         fs (snd (plot_imgs_grid L imgs (Some p) w)) = fs w"
proof (cases "grid_side n = 0")
  case True
  then show ?thesis by (simp add: plot_imgs_grid_no_side[OF assms(1)])
next
  case False
  have n: "0 < n" using False grid_side_0 by (cases "n = 0") simp_all
  have side: "0 < grid_side n * grid_side n" using False by simp
  then have upt: "[0..<grid_side n * grid_side n] = 0 # [Suc 0..<grid_side n * grid_side n]"
    by (rule upt_conv_Cons)
  have k: "min 1 (min n (grid_side n * grid_side n)) = 1" using n side by simp
  show ?thesis
    unfolding plot_imgs_grid_saved_eq[OF assms(1) False assms(4)] upt k
    by (simp add: plot_one_save_gray[OF assms(1,2) n assms(3)] shown_as_image_at[OF assms(1)] assms(3))
qed

text \<open>What plot_imgs_grid shows and what it writes, for showable images.\<close>

lemma plot_imgs_grid_shows:
  assumes "shape imgs = n # s" and "showable s" and "0 \<notin> set s"
  shows "imshows (trace (snd (plot_imgs_grid L imgs path w))) =
           imshows (trace w) @
           map (\<lambda>i. shown_as (Some i) (image_at imgs i)) [0..<plotted_count n s path]"
proof (cases "saving path")
  case False
  then show ?thesis
    using plot_imgs_grid_no_save[OF assms(1,2) False] by (simp add: plotted_count_def)
next
  case True
  then obtain p where p: "path = Some p" "p \<noteq> []"
    by (cases path) (simp_all add: saving_def)
  show ?thesis
  proof (cases "last s = 1")
    case True
    then show ?thesis
      using plot_imgs_grid_save_gray[OF assms(1,2) True p(2), of L w] \<open>saving path\<close>
      by (simp add: plotted_count_def p(1))
  next
    case False
    then show ?thesis
      using plot_imgs_grid_save_colour[OF assms(1,2) False assms(3) p(2), of L w] \<open>saving path\<close>
      by (simp add: plotted_count_def p(1))
  qed
qed

lemma plot_imgs_grid_writes:
  assumes "shape imgs = n # s" and "showable s" and "0 \<notin> set s"
  shows "imwrites (trace (snd (plot_imgs_grid L imgs path w))) =
           imwrites (trace w) @
           (case path of
              None \<Rightarrow> []
            | Some p \<Rightarrow>
                if p \<noteq> [] \<and> last s \<noteq> 1
                then map (\<lambda>i. (saved_name p (file_counter_of L (fs w) p) i, saved_pixels L imgs i))
                       [0..<min n (grid_side n * grid_side n)]
                else [])"
proof (cases "saving path")
  case False
  have "imwrites (trace (snd (plot_imgs_grid L imgs path w))) = imwrites (trace w)"
    using False by (intro conjunct2[OF plot_imgs_grid_no_save_frame]) (cases path; simp add: saving_def)
  then show ?thesis using False by (cases path) (simp_all add: saving_def)
next
  case True
  then obtain p where p: "path = Some p" "p \<noteq> []"
    by (cases path) (simp_all add: saving_def)
  show ?thesis
  proof (cases "last s = 1")
    case True
    then show ?thesis
      using plot_imgs_grid_save_gray[OF assms(1,2) True p(2), of L w] by (simp add: p)
  next
    case False
    then show ?thesis
      using plot_imgs_grid_save_colour[OF assms(1,2) False assms(3) p(2), of L w] by (simp add: p)
  qed
qed

lemma plot_imgs_grid_square:
  assumes "shape imgs = (k * k) # s" and "showable s" and "0 < k"
  shows "fst (plot_imgs_grid L imgs None w) = None \<and>
         imshows (trace (snd (plot_imgs_grid L imgs None w))) =
           imshows (trace w) @ map (\<lambda>i. shown_as (Some i) (image_at imgs i)) [0..<k * k]"
proof -
  let ?w1 = "emit (PltSubplots k k (k * k, k * k)) w"
  have side: "grid_side (k * k) \<noteq> 0" using assms(3) by (simp add: grid_side_square)
  have inb: "\<forall>i\<in>set [0..<k * k]. i < k * k" by simp
  note loop = plot_loop_no_save[OF assms(1,2) inb, of L ?w1]
  obtain eo w2 where r: "plot_loop L imgs None [0..<k * k] ?w1 = (eo, w2)"
    by (cases "plot_loop L imgs None [0..<k * k] ?w1")
  have eo: "eo = None" using loop r by simp
  have "plot_imgs_grid L imgs None w = (None, emit PltShow w2)"
    unfolding plot_imgs_grid_unsaved_eq[OF assms(1) side, of None L w, simplified saving_def, simplified]
    using r eo by (simp add: grid_side_square)
  then show ?thesis using loop r by simp
qed

subsection \<open>sample, compute_fid, generate_and_plot_images, loss_curve\<close>

lemma sample_gan_calls:
  "gan_calls (trace (snd (sample L g ds w))) =
     gan_calls (trace w) @ [(latent_draw L g 1 w, random_labels_of g (uniform_draw L g 1 w), False)]"
  by (simp add: sample_def Let_def latent_draw_def uniform_draw_def case_prod_beta
      split: list.splits sum.splits)

lemma slice_to1_Inr:
  "shape t \<noteq> [] \<Longrightarrow> \<exists>x. slice_to1 t = Inr x"
  by (cases "shape t") (simp_all add: slice_to1_def)

lemma sample_shows:
  assumes "ds = (real_imgs, real_labels) # rest"
    and "shape real_imgs \<noteq> []" and "shape real_labels \<noteq> []"
    and "shape (call g (latent_draw L g 1 w, random_labels_of g (uniform_draw L g 1 w)) False) =
           Suc m # s"
    and "showable s"
  shows "fst (sample L g ds w) = None \<and>
         imshows (trace (snd (sample L g ds w))) =
           imshows (trace w) @
           [shown_as None
              (image_at (call g (latent_draw L g 1 w, random_labels_of g (uniform_draw L g 1 w)) False) 0)]"
proof -
  define gen where
    "gen = call g (latent_draw L g 1 w, random_labels_of g (uniform_draw L g 1 w)) False"
  obtain a where a: "slice_to1 real_imgs = Inr a" using slice_to1_Inr[OF assms(2)] by blast
  obtain b where b: "slice_to1 real_labels = Inr b" using slice_to1_Inr[OF assms(3)] by blast
  have sh: "shape gen = Suc m # s" using assms(4) by (simp add: gen_def)
  have ix: "index0 gen 0 = Inr (image_at gen 0)" by (rule index0_in_bounds[OF sh]) simp
  have gen': "call g (fst (tf_truncated_normal L (rng w) [Suc 0, latent_dim g]),
      random_labels_of g (fst (tf_uniform L (snd (tf_truncated_normal L (rng w) [Suc 0, latent_dim g])) [Suc 0, Suc 0]))) False = gen"
    by (simp add: gen_def latent_draw_def uniform_draw_def)
  show ?thesis
    unfolding gen_def[symmetric]
    using assms(5)
    by (cases "last s = 1")
       (simp_all add: sample_def Let_def case_prod_beta assms(1) a b gen' ix sh shape_last_def
          showable_def shown_as_def squeeze_last_def)
qed

lemma compute_fid_eq:
  assumes "shape r \<noteq> []"
  shows "compute_fid L g r w =
     (Inr (calculate_fid L (scale_images L r [299, 299, 3])
             (scale_images L
                (call g (latent_draw L g 16 w, random_labels_of g (uniform_draw L g 16 w)) False)
                [299, 299, 3])),
      emit (CalculateFid (scale_images L r [299, 299, 3])
             (scale_images L
                (call g (latent_draw L g 16 w, random_labels_of g (uniform_draw L g 16 w)) False)
                [299, 299, 3]))
        (emit (GanCall (latent_draw L g 16 w) (random_labels_of g (uniform_draw L g 16 w)) False)
           (w\<lparr>rng := snd (tf_uniform L (snd (tf_truncated_normal L (rng w) [16, latent_dim g])) [16, 1])\<rparr>)))"
  using assms
  by (simp add: compute_fid_def shape0_def Let_def latent_draw_def uniform_draw_def case_prod_beta
      split: list.splits)

lemma compute_fid_scalar:
  assumes "shape r = []"
  shows "compute_fid L g r w = (Inl IndexError, w)"
  using assms by (simp add: compute_fid_def shape0_def)

lemma generate_and_plot_images_eq:
  "generate_and_plot_images L g n path w =
     plot_imgs_grid L
       (call g (latent_draw L g n w, random_labels_of g (uniform_draw L g n w)) False) path
       (emit (GanCall (latent_draw L g n w) (random_labels_of g (uniform_draw L g n w)) False)
          (w\<lparr>rng := snd (tf_uniform L (snd (tf_truncated_normal L (rng w) [n, latent_dim g])) [n, 1])\<rparr>))"
  by (simp add: generate_and_plot_images_def Let_def latent_draw_def uniform_draw_def case_prod_beta)

lemma generate_and_plot_images_gan_calls:
  "gan_calls (trace (snd (generate_and_plot_images L g n path w))) =
     gan_calls (trace w) @ [(latent_draw L g n w, random_labels_of g (uniform_draw L g n w), False)]"
  by (simp add: generate_and_plot_images_eq plot_imgs_grid_frame)


lemma loss_curve_eq:
  assumes "history h ''g_loss'' = Some g_loss" and "history h ''d_loss'' = Some d_loss"
  shows "loss_curve h w =
     (None, w\<lparr>trace := trace w @
        [PltPlot (zip (map real [0..<length g_loss]) g_loss) ''generator loss'',
         PltPlot (zip (map real [0..<length d_loss]) d_loss) ''discriminator loss'',
         PltXlabel ''Epoch'', PltYlabel ''Loss'', PltGrid ''y'', PltLegend ''lower right'',
         PltShow]\<rparr>)"
  using assms by (simp add: loss_curve_def Let_def emit_def plt_plot_def)

lemma loss_curve_reads:
  assumes "history h ''g_loss'' = history h' ''g_loss''" and "history h ''d_loss'' = history h' ''d_loss''"
  shows "loss_curve h w = loss_curve h' w"
  unfolding loss_curve_def assms by (rule refl)

subsection \<open>Runs of the small instance\<close>

lemma upt_0_3: "[0..<3] = [0, 1, 2]"
  by (simp add: upt_rec)

lemma upt_0_4: "[0..<4] = [0, 1, 2, 3]"
  by (simp add: upt_rec)

lemma os_path_join_dog:
  assumes "p \<noteq> []"
  shows "os_path_join p (''Dog_'' @ x) = (if last p = CHR ''/'' then p else p @ ''/'') @ ''Dog_'' @ x"
  using assms by (simp add: os_path_join_def)

lemma flat_fid_shapes:
  "map (\<lambda>(a, b). (shape a, shape b))
     (fid_calls (trace (snd (compute_fid flat_extern flat_gan two_imgs world0)))) =
   [([2, 299, 299, 3], [16, 299, 299, 3])]"
proof -
  have h: "shape two_imgs \<noteq> []" by (simp add: two_imgs_def)
  have a: "shape (scale_images flat_extern t s) = hd (shape t) # s" for t s
    by (simp add: flat_extern_def)
  have b: "shape (call flat_gan (z, l) tr) = [hd (shape z), 1, 1, 3]" for z l tr
    by (simp add: flat_gan_def)
  have c: "shape (latent_draw flat_extern flat_gan 16 world0) = [16, 2]"
    by (simp add: latent_draw_def flat_extern_def flat_gan_def)
  have d: "fid_calls (trace world0) = []" by (simp add: world0_def)
  show ?thesis
    by (simp add: compute_fid_eq[OF h] a b c d) (simp add: two_imgs_def)
qed

lemma three_imgs_shape:
  "shape three_imgs = 3 # [1, 1, 3]" "showable [1, 1, 3]" "last [1, 1, 3::nat] \<noteq> 1"
  "0 \<notin> set [1, 1, 3::nat]" "''out'' \<noteq> []"
  by (simp_all add: three_imgs_def showable_def imshow_ok_def)

lemma three_imgs_saved:
  "map (\<lambda>i. (saved_name ''out'' (file_counter_of flat_extern (fs world1) ''out'') i,
                     saved_pixels flat_extern three_imgs i)) [0..<min 3 (grid_side 3 * grid_side 3)] =
    [(''out/Dog_1.jpg'', \<lparr>shape = [1, 1, 3], data = [0, 127, 255]\<rparr>),
     (''out/Dog_2.jpg'', \<lparr>shape = [1, 1, 3], data = [127, 127, 127]\<rparr>),
     (''out/Dog_3.jpg'', \<lparr>shape = [1, 1, 3], data = [255, 255, 255]\<rparr>)]"
  by (simp add: grid_side_3 upt_0_3 file_counter_of_def flat_extern_def world1_def
      saved_name_def os_path_join_def digit_char_def
      saved_pixels_def image_at_def three_imgs_def tmap_def normalize_values times_255_values
      astype_uint8_values)

lemma three_imgs_written:
  "imwrites (trace (snd (plot_imgs_grid flat_extern three_imgs (Some ''out'') world1))) =
     [(''out/Dog_1.jpg'', \<lparr>shape = [1, 1, 3], data = [0, 127, 255]\<rparr>),
      (''out/Dog_2.jpg'', \<lparr>shape = [1, 1, 3], data = [127, 127, 127]\<rparr>),
      (''out/Dog_3.jpg'', \<lparr>shape = [1, 1, 3], data = [255, 255, 255]\<rparr>)]"
proof -
  have "imwrites (trace (snd (plot_imgs_grid flat_extern three_imgs (Some ''out'') world1))) =
        imwrites (trace world1) @
        map (\<lambda>i. (saved_name ''out'' (file_counter_of flat_extern (fs world1) ''out'') i,
                     saved_pixels flat_extern three_imgs i)) [0..<min 3 (grid_side 3 * grid_side 3)]"
    using plot_imgs_grid_save_colour[OF three_imgs_shape, of flat_extern world1] by blast
  then show ?thesis unfolding three_imgs_saved by (simp add: world1_def)
qed

text \<open>Saving an image with a single channel: the image is shown, and \<^verbatim>\<open>img.numpy()\<close> raises
  before anything is written.\<close>

lemma gray_img_not_saved:
  "plot_imgs_grid flat_extern gray_img (Some ''out'') world0 =
     (Some AttributeError,
      \<lparr>rng = 0, fs = [],
       trace = [PltSubplots 1 1 (1, 1),
                AxImshow 0 \<lparr>shape = [1, 1], data = [1 / 2]\<rparr> (Some ''gray'')]\<rparr>)"
  by (simp add: plot_imgs_grid_def shape0_def gray_img_def grid_side_1 Let_def world0_def
      plot_one_def index0_def tmap_def shape_last_def normalize_values emit_def squeeze_last_def
      dot_numpy_def imshow_ok_def)

lemma flat_draws:
  "latent_draw flat_extern flat_gan 4 world0 = \<lparr>shape = [4, 2], data = replicate 8 0\<rparr>"
  "random_labels_of flat_gan (uniform_draw flat_extern flat_gan 4 world0) =
     \<lparr>shape = [4, 1], data = replicate 4 1\<rparr>"
  by (simp_all add: latent_draw_def uniform_draw_def random_labels_of_def tmap_def
      flat_extern_def flat_gan_def)

lemma f32_round_exact_neg:
  assumes "2 powi e \<le> x" and "x < 2 powi (e + 1)" and "- 126 \<le> e"
    and "x = of_int m * 2 powi (e - 23)"
  shows "f32_round (- x) = - x"
proof -
  have pos: "0 < x" using assms(1) by (smt (verit) zero_less_power_int)
  have "f32_exponent (- x) = f32_exponent x" by (simp add: f32_exponent_def)
  also have "\<dots> = e" using assms(1-3) by (rule f32_exponent_eq)
  finally have u: "f32_ulp (- x) = 2 powi (e - 23)" by (simp add: f32_ulp_def)
  have "- x / 2 powi (e - 23) = of_int (- m)" using assms(4) by simp
  then have r: "py_round (- x / 2 powi (e - 23)) = - m" by (simp only: py_round_of_int)
  have nz: "- x \<noteq> 0" using pos by simp
  have "f32_round (- x) = of_int (py_round (- x / 2 powi (e - 23))) * 2 powi (e - 23)"
    using nz by (simp only: f32_round_def u if_False)
  also have "\<dots> = of_int (- m) * 2 powi (e - 23)" by (simp only: r)
  also have "\<dots> = - x" by (simp add: assms(4))
  finally show ?thesis .
qed

lemma f32_round_minus_3 [simp]: "f32_round (- 3) = - 3"
  by (rule f32_round_exact_neg[where e = 1 and m = "3 * 2 ^ 22"]) (simp_all add: power_int_minus)

lemma f32_round_minus_3_2 [simp]: "f32_round (- (3 / 2)) = - (3 / 2)"
  by (rule f32_round_exact_neg[where e = 0 and m = "3 * 2 ^ 22"]) (simp_all add: power_int_minus)


subsection \<open>Rounding at work: a tie in the sum, and a product that rounds up\<close>

text \<open>For the pixel \<open>1 - 2 ^ -24\<close> the sum \<open>x + 1\<close> lies halfway between two floats and rounds
  to \<open>2\<close>, so the saved byte is \<open>255\<close>; for ten classes and the float nearest to \<open>0.7\<close> the
  product rounds to \<open>7\<close>, so the label is \<open>7\<close>.\<close>

lemma f32_round_tie_up: "f32_round (33554431 / 16777216) = 2"
proof -
  have lo: "2 powi 0 \<le> (33554431 / 16777216 :: real)" by simp
  have hi: "(33554431 / 16777216 :: real) < 2 powi (0 + 1)" by simp
  have q: "(33554431 / 16777216 :: real) / 2 powi (0 - 23) = 33554431 / 2"
    by (simp add: power_int_minus)
  have fl: "\<lfloor>33554431 / 2 :: real\<rfloor> = 16777215" by simp
  have r: "py_round (33554431 / 2) = 16777216"
    by (simp add: py_round_def Let_def fl)
  show ?thesis
    using f32_round_scaled[OF lo hi] by (simp add: q r power_int_minus)
qed

lemma normalize_near_one: "normalize (16777215 / 16777216) = 1"
proof -
  have "(16777215 / 16777216 :: real) + 1 = 33554431 / 16777216" by simp
  then show ?thesis by (simp add: normalize_def f32_round_tie_up)
qed

lemma saved_byte_near_one: "astype_uint8 L (times_255 (normalize (16777215 / 16777216))) = 255"
  by (simp add: normalize_near_one times_255_values astype_uint8_values)

lemma label_ten_classes: "\<lfloor>f32_round (f32_round 10 * (11744051 / 16777216))\<rfloor> = 7"
proof -
  have ten: "f32_round 10 = 10"
    by (rule f32_round_exact[where e = 3 and m = "10 * 2 ^ 20"]) (simp_all add: power_int_minus)
  have lo: "2 powi 2 \<le> (117440510 / 16777216 :: real)" by simp
  have hi: "(117440510 / 16777216 :: real) < 2 powi (2 + 1)" by simp
  have q: "(117440510 / 16777216 :: real) / 2 powi (2 - 23) = 58720255 / 4"
    by (simp add: power_int_minus)
  have r: "py_round (58720255 / 4) = 14680064"
    by (rule py_round_between) simp_all
  have "f32_round (117440510 / 16777216) = 7"
    using f32_round_scaled[OF lo hi] by (simp add: q r power_int_minus)
  moreover have "(10::real) * (11744051 / 16777216) = 117440510 / 16777216" by simp
  ultimately show ?thesis by (simp add: ten)
qed

section \<open>The claims\<close>

subsection \<open>C1: the grid of plot_imgs_grid\<close>

text \<open>
  C1 says that for every \<open>n \<ge> 1\<close> the images are arranged in a square grid of side
  \<open>round (sqrt n)\<close>, that every one of the \<open>n\<close> images is plotted and that every index
  into the images tensor stays in bounds. The side is as stated, but the loop runs over
  the \<open>side * side\<close> axes of the grid and not over the images. For three images the side is
  \<open>2\<close>, the grid has four axes, and the fourth iteration reads \<^verbatim>\<open>imgs[3, ...]\<close>, which is
  out of bounds: the call raises after three images. For two images the side is \<open>1\<close> and
  only the first image is plotted.
\<close>

theorem plot_imgs_grid_not_square:
  "grid_side 3 = 2 \<and>
   fst (plot_imgs_grid flat_extern three_imgs None world0) = Some InvalidArgumentError \<and>
   grid_side 2 = 1 \<and>
   plot_imgs_grid flat_extern two_imgs None world0 =
     (None, \<lparr>rng = 0, fs = [],
             trace = [PltSubplots 1 1 (2, 2),
                      AxImshow 0 \<lparr>shape = [1, 1, 3], data = [0, 1 / 2, 1]\<rparr> None,
                      PltShow]\<rparr>)"
proof -
  have three: "fst (plot_imgs_grid flat_extern three_imgs None world0) = Some InvalidArgumentError"
    by (simp add: plot_imgs_grid_def shape0_def three_imgs_def grid_side_3 Let_def world0_def
        upt_0_4 plot_one_def index0_def tmap_def shape_last_def normalize_values emit_def imshow_ok_def)
  have two: "plot_imgs_grid flat_extern two_imgs None world0 =
     (None, \<lparr>rng = 0, fs = [],
             trace = [PltSubplots 1 1 (2, 2),
                      AxImshow 0 \<lparr>shape = [1, 1, 3], data = [0, 1 / 2, 1]\<rparr> None,
                      PltShow]\<rparr>)"
    by (simp add: plot_imgs_grid_def shape0_def two_imgs_def grid_side_2 Let_def world0_def
        plot_one_def index0_def tmap_def shape_last_def normalize_values emit_def imshow_ok_def)
  show ?thesis
    using three two grid_side_2 grid_side_3 by blast
qed

subsection \<open>C2: compute_fid returns what calculate_fid returns\<close>

text \<open>
  C2: for every GAN and every tensor of real images (a tensor with a first axis: on a
  tensor without one \<^verbatim>\<open>real_images.shape[0]\<close> raises before anything else happens),
  \<^verbatim>\<open>compute_fid\<close> returns exactly \<^verbatim>\<open>calculate_fid\<close> applied to
  \<^verbatim>\<open>scale_images(real_images, (299, 299, 3))\<close> and to
  \<^verbatim>\<open>scale_images(generated_images, (299, 299, 3))\<close>, where the generated images are the
  GAN's forward pass, with \<^verbatim>\<open>training=False\<close>, on freshly drawn latent vectors and labels.
  The equation holds whatever function \<^verbatim>\<open>calculate_fid\<close> is: the module computes no part of
  the score.
\<close>

theorem compute_fid_returns:
  assumes "shape real_images \<noteq> []"
  shows "fst (compute_fid L g real_images w) =
     Inr (calculate_fid L (scale_images L real_images [299, 299, 3])
            (scale_images L
               (call g (latent_draw L g 16 w, random_labels_of g (uniform_draw L g 16 w)) False)
               [299, 299, 3]))"
  by (simp add: compute_fid_eq[OF assms])

theorem compute_fid_returns_witness:
  "shape two_imgs \<noteq> [] \<and> fst (compute_fid flat_extern flat_gan two_imgs world0) = Inr 18"
proof -
  have h: "shape two_imgs \<noteq> []" by (simp add: two_imgs_def)
  have a: "shape (scale_images flat_extern t s) = hd (shape t) # s" for t s
    by (simp add: flat_extern_def)
  have b: "shape (call flat_gan (z, l) tr) = [hd (shape z), 1, 1, 3]" for z l tr
    by (simp add: flat_gan_def)
  have c: "shape (latent_draw flat_extern flat_gan 16 world0) = [16, 2]"
    by (simp add: latent_draw_def flat_extern_def flat_gan_def)
  have d: "calculate_fid flat_extern x y = real (hd (shape x)) + real (hd (shape y))" for x y
    by (simp add: flat_extern_def)
  have "fst (compute_fid flat_extern flat_gan two_imgs world0) = Inr 18"
    using compute_fid_returns[OF h, of flat_extern flat_gan world0]
    by (simp add: a b c d) (simp add: two_imgs_def)
  then show ?thesis using h by blast
qed

subsection \<open>C3: sixteen generated images, whatever the number of real ones\<close>

text \<open>
  C3: for every tensor of real images, \<^verbatim>\<open>compute_fid\<close> asks for 16 latent vectors and 16
  labels and calls the GAN once on them, whatever the real images are; the number of real
  images is read and never used, so two tensors of real images that \<^verbatim>\<open>scale_images\<close> maps
  to the same tensor give the same run; and the two image sets handed to the metric can
  have different sizes: in the small instance, \<open>2\<close> real images are compared with \<open>16\<close>
  generated ones.
\<close>

theorem compute_fid_sixteen:
  assumes "shape r \<noteq> []" and "shape r' \<noteq> []"
  shows "gan_calls (trace (snd (compute_fid L g r w))) =
           gan_calls (trace w) @
           [(latent_draw L g 16 w, random_labels_of g (uniform_draw L g 16 w), False)] \<and>
         gan_calls (trace (snd (compute_fid L g r w))) = gan_calls (trace (snd (compute_fid L g r' w))) \<and>
         (scale_images L r [299, 299, 3] = scale_images L r' [299, 299, 3] \<longrightarrow>
            compute_fid L g r w = compute_fid L g r' w) \<and>
         map (\<lambda>(a, b). (shape a, shape b))
           (fid_calls (trace (snd (compute_fid flat_extern flat_gan two_imgs world0)))) =
         [([2, 299, 299, 3], [16, 299, 299, 3])]"
  using flat_fid_shapes by (simp add: compute_fid_eq[OF assms(1)] compute_fid_eq[OF assms(2)])

theorem compute_fid_sixteen_witness:
  "shape two_imgs \<noteq> [] \<and> shape three_imgs \<noteq> [] \<and>
   gan_calls (trace (snd (compute_fid flat_extern flat_gan two_imgs world0))) =
     [(\<lparr>shape = [16, 2], data = replicate 32 0\<rparr>, \<lparr>shape = [16, 1], data = replicate 16 1\<rparr>, False)] \<and>
   gan_calls (trace (snd (compute_fid flat_extern flat_gan two_imgs world0))) =
   gan_calls (trace (snd (compute_fid flat_extern flat_gan three_imgs world0)))"
proof -
  have h: "shape two_imgs \<noteq> []" "shape three_imgs \<noteq> []"
    by (simp_all add: two_imgs_def three_imgs_def)
  have d: "latent_draw flat_extern flat_gan 16 world0 = \<lparr>shape = [16, 2], data = replicate 32 0\<rparr>"
    "random_labels_of flat_gan (uniform_draw flat_extern flat_gan 16 world0) =
       \<lparr>shape = [16, 1], data = replicate 16 1\<rparr>"
    by (simp_all add: latent_draw_def uniform_draw_def random_labels_of_def tmap_def
        flat_extern_def flat_gan_def)
  have e: "gan_calls (trace world0) = []" by (simp add: world0_def)
  note th = compute_fid_sixteen[OF h, of flat_extern flat_gan world0]
  have a: "gan_calls (trace (snd (compute_fid flat_extern flat_gan two_imgs world0))) =
     [(\<lparr>shape = [16, 2], data = replicate 32 0\<rparr>, \<lparr>shape = [16, 1], data = replicate 16 1\<rparr>, False)]"
    using th[THEN conjunct1] by (simp add: d e)
  have b: "gan_calls (trace (snd (compute_fid flat_extern flat_gan two_imgs world0))) =
     gan_calls (trace (snd (compute_fid flat_extern flat_gan three_imgs world0)))"
    using th[THEN conjunct2, THEN conjunct1] .
  show ?thesis using h a b by blast
qed

subsection \<open>C4: the files written by plot_imgs_grid\<close>

text \<open>
  C4 as stated: with a path that is not \<^verbatim>\<open>None\<close>, every plotted image \<open>i\<close> is written to
  a file \<^verbatim>\<open>Dog_<c+i>.jpg\<close> under the path. The guard of the code is \<^verbatim>\<open>if path:\<close>, which
  the empty string does not pass: with the path \<^verbatim>\<open>''\<close> one image is plotted and no file
  is written.
\<close>

theorem plot_imgs_grid_empty_path_counterexample:
  "imshows (trace (snd (plot_imgs_grid flat_extern one_img (Some []) world0))) =
     [(Some 0, \<lparr>shape = [1, 1, 3], data = [0, 1 / 2, 1]\<rparr>, None)] \<and>
   imwrites (trace (snd (plot_imgs_grid flat_extern one_img (Some []) world0))) = []"
  by (simp add: plot_imgs_grid_def shape0_def one_img_def grid_side_1 Let_def world0_def
      plot_one_def index0_def tmap_def shape_last_def normalize_values emit_def imshow_ok_def)

text \<open>
  C4 as amended: when \<^verbatim>\<open>plot_imgs_grid\<close> is called with a non-empty path \<open>p\<close> and images
  that \<^verbatim>\<open>imshow\<close> takes (of shape \<open>(M, N)\<close>, \<open>(M, N, 3)\<close> or \<open>(M, N, 4)\<close>), with a last axis
  that is not of length \<open>1\<close> and at least one pixel (pixels are finite floats), the
  plotted images are the images
  \<open>i < min n (side * side)\<close>, and for each of them, in order, \<^verbatim>\<open>cv2.imwrite\<close> is called
  once, with the file name \<^verbatim>\<open>os.path.join(p, 'Dog_' + str(c + i)) + '.jpg'\<close>, that is \<open>p\<close>, a
  separator unless \<open>p\<close> ends with one, and \<^verbatim>\<open>Dog_<c+i>.jpg\<close>, and with the pixels of image
  \<open>i\<close>, normalized, multiplied by 255 and cast to \<^verbatim>\<open>uint8\<close>, all in \<^verbatim>\<open>float32\<close>; \<open>c\<close> is
  the number of files that \<^verbatim>\<open>os.walk(p)\<close> lists in the file system the call starts from.
  The file system the call ends in is the one these writes produce, in this order.
\<close>

theorem plot_imgs_grid_saves:
  assumes "shape imgs = n # s" and "showable s" and "last s \<noteq> 1" and "0 \<notin> set s"
    and "p \<noteq> []"
  shows "imshows (trace (snd (plot_imgs_grid L imgs (Some p) w))) =
           imshows (trace w) @
           map (\<lambda>i. (Some i, tmap normalize (image_at imgs i), None))
             [0..<min n (grid_side n * grid_side n)] \<and>
         imwrites (trace (snd (plot_imgs_grid L imgs (Some p) w))) =
           imwrites (trace w) @
           map (\<lambda>i. (saved_name p (file_counter_of L (fs w) p) i, saved_pixels L imgs i))
             [0..<min n (grid_side n * grid_side n)] \<and>
         fs (snd (plot_imgs_grid L imgs (Some p) w)) =
           foldl (\<lambda>f i. cv2_imwrite L f (saved_name p (file_counter_of L (fs w) p) i)
                          (saved_pixels L imgs i))
             (fs w) [0..<min n (grid_side n * grid_side n)] \<and>
         (\<forall>c i. saved_name p c i =
            (if last p = CHR ''/'' then p else p @ ''/'') @ ''Dog_'' @ str_nat (c + i) @ ''.jpg'') \<and>
         (\<forall>i. saved_pixels L imgs i =
            \<lparr>shape = s,
             data = map (\<lambda>x. astype_uint8 L (f32_round (255 * f32_round (f32_round (x + 1) / 2))))
                      (data (image_at imgs i))\<rparr>)"
proof -
  have px: "saved_pixels L imgs i =
      \<lparr>shape = s,
       data = map (\<lambda>x. astype_uint8 L (f32_round (255 * f32_round (f32_round (x + 1) / 2))))
                (data (image_at imgs i))\<rparr>" for i
    using assms(1) by (simp add: saved_pixels_def tmap_def times_255_def normalize_def o_def)
  show ?thesis
    using plot_imgs_grid_save_colour[OF assms, of L w] os_path_join_dog[OF assms(5)] assms(3) px
    by (simp add: saved_name_def shown_as_image_at[OF assms(1)])
qed

theorem plot_imgs_grid_saves_witness:
  "shape three_imgs = 3 # [1, 1, 3] \<and> showable [1, 1, 3] \<and> last [1, 1, 3::nat] \<noteq> 1 \<and>
   0 \<notin> set [1, 1, 3::nat] \<and> ''out'' \<noteq> [] \<and>
   imwrites (trace (snd (plot_imgs_grid flat_extern three_imgs (Some ''out'') world1))) =
     [(''out/Dog_1.jpg'', \<lparr>shape = [1, 1, 3], data = [0, 127, 255]\<rparr>),
      (''out/Dog_2.jpg'', \<lparr>shape = [1, 1, 3], data = [127, 127, 127]\<rparr>),
      (''out/Dog_3.jpg'', \<lparr>shape = [1, 1, 3], data = [255, 255, 255]\<rparr>)]"
proof -
  have "imwrites (trace (snd (plot_imgs_grid flat_extern three_imgs (Some ''out'') world1))) =
        imwrites (trace world1) @
        map (\<lambda>i. (saved_name ''out'' (file_counter_of flat_extern (fs world1) ''out'') i,
                     saved_pixels flat_extern three_imgs i)) [0..<min 3 (grid_side 3 * grid_side 3)]"
    using plot_imgs_grid_saves[OF three_imgs_shape, of flat_extern world1] by blast
  then have "imwrites (trace (snd (plot_imgs_grid flat_extern three_imgs (Some ''out'') world1))) =
     [(''out/Dog_1.jpg'', \<lparr>shape = [1, 1, 3], data = [0, 127, 255]\<rparr>),
      (''out/Dog_2.jpg'', \<lparr>shape = [1, 1, 3], data = [127, 127, 127]\<rparr>),
      (''out/Dog_3.jpg'', \<lparr>shape = [1, 1, 3], data = [255, 255, 255]\<rparr>)]"
    unfolding three_imgs_saved by (simp add: world1_def)
  then show ?thesis using three_imgs_shape by blast
qed

subsection \<open>C5: displayed and saved images are normalized\<close>

text \<open>
  C5: for images of finite floats that \<^verbatim>\<open>imshow\<close> takes and that have a pixel,
  \<^verbatim>\<open>plot_imgs_grid\<close> shows on the axes \<open>i\<close> the image
  \<open>i\<close> with every pixel \<open>x\<close> replaced by \<open>(x + 1) / 2\<close>, for every \<open>i\<close> below the number of
  plotted images and for no other, and \<^verbatim>\<open>sample\<close> shows the generated image \<open>0\<close> in the same
  way; every file that \<^verbatim>\<open>plot_imgs_grid\<close> writes holds, for its image \<open>i\<close>, the normalized
  pixels multiplied by 255 and cast to \<^verbatim>\<open>uint8\<close>. The arithmetic is the one of the code,
  in \<^verbatim>\<open>float32\<close>: the sum and the quotient are each rounded, and so is the product with
  255. It takes \<open>[-1, 1]\<close> to \<open>[0, 1]\<close> and then to \<open>[0, 255]\<close>, where the cast is the integer
  part, with no wrap-around.
\<close>

theorem shown_and_saved_images_normalized:
  assumes "shape imgs = n # s" and "showable s" and "0 \<notin> set s"
    and "ds = (real_imgs, real_labels) # rest"
    and "shape real_imgs \<noteq> []" and "shape real_labels \<noteq> []"
    and "shape (call g (latent_draw L g 1 w, random_labels_of g (uniform_draw L g 1 w)) False) =
           Suc m # s'"
    and "showable s'" and "0 \<notin> set s'"
  shows "imshows (trace (snd (plot_imgs_grid L imgs path w))) =
           imshows (trace w) @
           map (\<lambda>i. shown_as (Some i) (image_at imgs i)) [0..<plotted_count n s path] \<and>
         imwrites (trace (snd (plot_imgs_grid L imgs path w))) =
           imwrites (trace w) @
           (case path of
              None \<Rightarrow> []
            | Some p \<Rightarrow>
                if p \<noteq> [] \<and> last s \<noteq> 1
                then map (\<lambda>i. (saved_name p (file_counter_of L (fs w) p) i, saved_pixels L imgs i))
                       [0..<min n (grid_side n * grid_side n)]
                else []) \<and>
         imshows (trace (snd (sample L g ds w))) =
           imshows (trace w) @
           [shown_as None
              (image_at (call g (latent_draw L g 1 w, random_labels_of g (uniform_draw L g 1 w)) False) 0)] \<and>
         data (fst (snd (shown_as ax t))) =
           map (\<lambda>x. f32_round (f32_round (x + 1) / 2)) (data t) \<and>
         data (saved_pixels L imgs i) =
           map (\<lambda>x. astype_uint8 L (f32_round (255 * f32_round (f32_round (x + 1) / 2))))
             (data (image_at imgs i)) \<and>
         normalize x = f32_round (f32_round (x + 1) / 2) \<and>
         (- 1 \<le> x \<and> x \<le> 1 \<longrightarrow>
            0 \<le> normalize x \<and> normalize x \<le> 1 \<and>
            0 \<le> f32_round (255 * normalize x) \<and> f32_round (255 * normalize x) \<le> 255 \<and>
            uint (astype_uint8 L (f32_round (255 * normalize x))) = \<lfloor>f32_round (255 * normalize x)\<rfloor>)"
proof -
  have a: "data (fst (snd (shown_as ax t))) = map (\<lambda>x. f32_round (f32_round (x + 1) / 2)) (data t)"
    by (simp add: shown_as_def squeeze_last_def tmap_def normalize_def)
  have b: "data (saved_pixels L imgs i) =
      map (\<lambda>x. astype_uint8 L (f32_round (255 * f32_round (f32_round (x + 1) / 2))))
        (data (image_at imgs i))"
    by (simp add: saved_pixels_def tmap_def times_255_def normalize_def o_def)
  have c: "0 \<le> normalize x \<and> normalize x \<le> 1 \<and>
      0 \<le> f32_round (255 * normalize x) \<and> f32_round (255 * normalize x) \<le> 255 \<and>
      uint (astype_uint8 L (f32_round (255 * normalize x))) = \<lfloor>f32_round (255 * normalize x)\<rfloor>"
    if "- 1 \<le> x" "x \<le> 1"
  proof -
    have n: "0 \<le> normalize x" "normalize x \<le> 1" using that by (rule normalize_range)+
    have t: "0 \<le> times_255 (normalize x)" "times_255 (normalize x) \<le> 255"
      using n by (rule times_255_range)+
    have "uint (astype_uint8 L (times_255 (normalize x))) = \<lfloor>times_255 (normalize x)\<rfloor>"
      using t by (rule astype_uint8_byte)
    then show ?thesis using n t by (simp add: times_255_def)
  qed
  show ?thesis
    using plot_imgs_grid_shows[OF assms(1-3), of L path w]
      plot_imgs_grid_writes[OF assms(1-3), of L path w]
      sample_shows[OF assms(4-8)] a b c
    by (simp add: normalize_def)
qed

theorem shown_and_saved_images_normalized_witness:
  "shape three_imgs = 3 # [1, 1, 3] \<and> showable [1, 1, 3] \<and> 0 \<notin> set [1, 1, 3::nat] \<and>
   shape one_img \<noteq> [] \<and>
   shape (call flat_gan (latent_draw flat_extern flat_gan 1 world0,
      random_labels_of flat_gan (uniform_draw flat_extern flat_gan 1 world0)) False) =
     Suc 0 # [1, 1, 3] \<and>
   imshows (trace (snd (sample flat_extern flat_gan [(one_img, one_img)] world0))) =
     [(None, \<lparr>shape = [1, 1, 3], data = [1 / 2, 1 / 2, 1 / 2]\<rparr>, None)] \<and>
   imshows (trace (snd (plot_imgs_grid flat_extern three_imgs None world0))) =
     [(Some 0, \<lparr>shape = [1, 1, 3], data = [0, 1 / 2, 1]\<rparr>, None),
      (Some 1, \<lparr>shape = [1, 1, 3], data = [1 / 2, 1 / 2, 1 / 2]\<rparr>, None),
      (Some 2, \<lparr>shape = [1, 1, 3], data = [1, 1, 1]\<rparr>, None)] \<and>
   - 1 \<le> (0::real) \<and> (0::real) \<le> 1 \<and> normalize 0 = 1 / 2 \<and>
   uint (astype_uint8 flat_extern (f32_round (255 * normalize 0))) = 127"
proof -
  have g: "shape (call flat_gan (latent_draw flat_extern flat_gan 1 world0,
      random_labels_of flat_gan (uniform_draw flat_extern flat_gan 1 world0)) False) =
     Suc 0 # [1, 1, 3]"
    by (simp add: flat_gan_def latent_draw_def flat_extern_def)
  have gd: "image_at (call flat_gan (latent_draw flat_extern flat_gan 1 world0,
      random_labels_of flat_gan (uniform_draw flat_extern flat_gan 1 world0)) False) 0 =
     \<lparr>shape = [1, 1, 3], data = [0, 0, 0]\<rparr>"
    by (simp add: flat_gan_def latent_draw_def flat_extern_def image_at_def numeral_3_eq_3)
  have o: "shape one_img \<noteq> []" by (simp add: one_img_def)
  note th = shown_and_saved_images_normalized[where path = None and rest = "[]" and x = 0,
      OF three_imgs_shape(1,2,4) refl o o g three_imgs_shape(2,4)]
  have e: "imshows (trace world0) = []" by (simp add: world0_def)
  have sh0: "shown_as None \<lparr>shape = [1, 1, 3], data = [0, 0, 0]\<rparr> =
     (None, \<lparr>shape = [1, 1, 3], data = [1 / 2, 1 / 2, 1 / 2]\<rparr>, None)"
    by (simp add: shown_as_def tmap_def normalize_values)
  have s1: "imshows (trace (snd (sample flat_extern flat_gan [(one_img, one_img)] world0))) =
     [(None, \<lparr>shape = [1, 1, 3], data = [1 / 2, 1 / 2, 1 / 2]\<rparr>, None)]"
    using th[THEN conjunct2, THEN conjunct2, THEN conjunct1] unfolding gd sh0 by (simp add: e)
  have k: "[0..<plotted_count 3 [1, 1, 3] None] = [0, 1, 2]"
    by (simp add: plotted_count_def saving_def grid_side_3 upt_0_3)
  have im: "map (\<lambda>i. shown_as (Some i) (image_at three_imgs i)) [0, 1, 2] =
     [(Some 0, \<lparr>shape = [1, 1, 3], data = [0, 1 / 2, 1]\<rparr>, None),
      (Some 1, \<lparr>shape = [1, 1, 3], data = [1 / 2, 1 / 2, 1 / 2]\<rparr>, None),
      (Some 2, \<lparr>shape = [1, 1, 3], data = [1, 1, 1]\<rparr>, None)]"
    by (simp add: shown_as_def image_at_def three_imgs_def tmap_def normalize_values)
  have s2: "imshows (trace (snd (plot_imgs_grid flat_extern three_imgs None world0))) =
     [(Some 0, \<lparr>shape = [1, 1, 3], data = [0, 1 / 2, 1]\<rparr>, None),
      (Some 1, \<lparr>shape = [1, 1, 3], data = [1 / 2, 1 / 2, 1 / 2]\<rparr>, None),
      (Some 2, \<lparr>shape = [1, 1, 3], data = [1, 1, 1]\<rparr>, None)]"
    using th[THEN conjunct1] unfolding k im by (simp add: e)
  have n0: "normalize 0 = 1 / 2" by (simp add: normalize_values)
  have u: "uint (astype_uint8 flat_extern (f32_round (255 * normalize 0))) = 127"
    using th by (simp add: n0)
  show ?thesis using three_imgs_shape(1,2,4) o g s1 s2 n0 u by simp
qed

subsection \<open>C6: both image sets are resized to the same shape\<close>

text \<open>
  C6: \<^verbatim>\<open>compute_fid\<close> calls \<^verbatim>\<open>calculate_fid\<close> once, on the real images and on the generated
  images, each passed through \<^verbatim>\<open>scale_images\<close> with the target shape \<open>(299, 299, 3)\<close>; so,
  for a \<^verbatim>\<open>scale_images\<close> that returns images of the shape it is asked for, the two image
  sets handed to the metric have the same spatial and channel dimensions.
\<close>

theorem compute_fid_same_target_shape:
  assumes "shape r \<noteq> []"
  shows "fid_calls (trace (snd (compute_fid L g r w))) =
           fid_calls (trace w) @
           [(scale_images L r [299, 299, 3],
             scale_images L
               (call g (latent_draw L g 16 w, random_labels_of g (uniform_draw L g 16 w)) False)
               [299, 299, 3])] \<and>
         (scale_images_to_shape L \<longrightarrow>
            tl (shape (scale_images L r [299, 299, 3])) = [299, 299, 3] \<and>
            tl (shape (scale_images L
               (call g (latent_draw L g 16 w, random_labels_of g (uniform_draw L g 16 w)) False)
               [299, 299, 3])) = [299, 299, 3])"
  by (simp add: compute_fid_eq[OF assms] scale_images_to_shape_def)

theorem compute_fid_same_target_shape_witness:
  "shape two_imgs \<noteq> [] \<and> scale_images_to_shape flat_extern \<and>
   tl (shape (scale_images flat_extern two_imgs [299, 299, 3])) = [299, 299, 3] \<and>
   tl (shape (scale_images flat_extern
       (call flat_gan (latent_draw flat_extern flat_gan 16 world0,
          random_labels_of flat_gan (uniform_draw flat_extern flat_gan 16 world0)) False)
       [299, 299, 3])) = [299, 299, 3]"
proof -
  have h: "shape two_imgs \<noteq> []" by (simp add: two_imgs_def)
  have c: "scale_images_to_shape flat_extern"
    by (simp add: scale_images_to_shape_def flat_extern_def)
  show ?thesis using compute_fid_same_target_shape[OF h, of flat_extern flat_gan world0] h c
    by blast
qed

subsection \<open>C7: the inputs of the generator\<close>

text \<open>
  C7: in each generation path the GAN is called once, with \<^verbatim>\<open>training=False\<close>, on latent
  vectors drawn by \<^verbatim>\<open>tf.random.truncated_normal\<close> with the shape \<open>(k, latent_dim)\<close>, where
  \<open>k\<close> is \<open>1\<close> in \<^verbatim>\<open>sample\<close>, \<open>16\<close> in \<^verbatim>\<open>compute_fid\<close> and \<^verbatim>\<open>num_images\<close> in
  \<^verbatim>\<open>generate_and_plot_images\<close> (\<^verbatim>\<open>compute_fid\<close> raises before the call when the real images
  have no first axis).
\<close>

theorem generator_inputs:
  "gan_calls (trace (snd (sample L g ds w))) =
     gan_calls (trace w) @
     [(latent_draw L g 1 w, random_labels_of g (uniform_draw L g 1 w), False)] \<and>
   gan_calls (trace (snd (compute_fid L g r w))) =
     gan_calls (trace w) @
     (if shape r = [] then []
      else [(latent_draw L g 16 w, random_labels_of g (uniform_draw L g 16 w), False)]) \<and>
   gan_calls (trace (snd (generate_and_plot_images L g num_images save_path w))) =
     gan_calls (trace w) @
     [(latent_draw L g num_images w, random_labels_of g (uniform_draw L g num_images w), False)] \<and>
   latent_draw L g k w = fst (tf_truncated_normal L (rng w) [k, latent_dim g])"
proof (cases "shape r = []")
  case True
  then show ?thesis
    by (simp add: sample_gan_calls generate_and_plot_images_gan_calls compute_fid_scalar
        latent_draw_def)
next
  case False
  then show ?thesis
    by (simp add: sample_gan_calls generate_and_plot_images_gan_calls compute_fid_eq
        latent_draw_def)
qed

theorem generator_inputs_witness:
  "gan_calls (trace (snd (generate_and_plot_images flat_extern flat_gan 4 None world0))) =
     [(\<lparr>shape = [4, 2], data = replicate 8 0\<rparr>, \<lparr>shape = [4, 1], data = replicate 4 1\<rparr>, False)]"
proof -
  have e: "gan_calls (trace world0) = []" by (simp add: world0_def)
  show ?thesis
    using generator_inputs[of flat_extern flat_gan "[]" world0 two_imgs 4 None 4]
    by (simp add: flat_draws e)
qed

subsection \<open>C8: the random labels\<close>




subsection \<open>C9: without a path nothing is written\<close>

text \<open>
  C9: when \<^verbatim>\<open>plot_imgs_grid\<close> is called with the path \<^verbatim>\<open>None\<close>, directly or by
  \<^verbatim>\<open>generate_and_plot_images\<close> with no \<^verbatim>\<open>save_path\<close>, \<^verbatim>\<open>cv2.imwrite\<close> is not called and the
  file system is the one the call started from; a call that writes a file or changes the
  file system was given a path.
\<close>

theorem no_path_no_file:
  "fs (snd (plot_imgs_grid L imgs None w)) = fs w \<and>
   imwrites (trace (snd (plot_imgs_grid L imgs None w))) = imwrites (trace w) \<and>
   fs (snd (generate_and_plot_images L g n None w)) = fs w \<and>
   imwrites (trace (snd (generate_and_plot_images L g n None w))) = imwrites (trace w) \<and>
   (fs (snd (plot_imgs_grid L imgs path w)) \<noteq> fs w \<or>
    imwrites (trace (snd (plot_imgs_grid L imgs path w))) \<noteq> imwrites (trace w) \<longrightarrow>
      (\<exists>p. path = Some p \<and> p \<noteq> []))"
proof -
  have a: "fs (snd (plot_imgs_grid L x None v)) = fs v \<and>
      imwrites (trace (snd (plot_imgs_grid L x None v))) = imwrites (trace v)" for x v
    by (rule plot_imgs_grid_no_save_frame) simp
  have b: "path = None \<or> path = Some [] \<or> (\<exists>p. path = Some p \<and> p \<noteq> [])"
    by (cases path) auto
  show ?thesis
    using a b plot_imgs_grid_no_save_frame[of path L imgs w]
    by (auto simp: generate_and_plot_images_eq)
qed

theorem no_path_no_file_witness:
  "imwrites (trace (snd (plot_imgs_grid flat_extern three_imgs (Some ''out'') world1))) \<noteq>
     imwrites (trace world1) \<and>
   (\<exists>p. Some ''out'' = Some p \<and> p \<noteq> []) \<and>
   fs (snd (plot_imgs_grid flat_extern three_imgs None world1)) = fs world1 \<and>
   imwrites (trace (snd (plot_imgs_grid flat_extern three_imgs None world1))) = []"
proof -
  have a: "imwrites (trace (snd (plot_imgs_grid flat_extern three_imgs (Some ''out'') world1))) \<noteq>
     imwrites (trace world1)"
    unfolding three_imgs_written by (simp add: world1_def)
  have e: "imwrites (trace world1) = []" by (simp add: world1_def)
  show ?thesis
    using no_path_no_file[of flat_extern three_imgs world1 flat_gan 4 "Some ''out''"] a e
    by simp
qed

subsection \<open>C10: the loss curves\<close>

text \<open>
  C10: \<^verbatim>\<open>loss_curve\<close> plots the series stored under \<^verbatim>\<open>'g_loss'\<close>, labelled
  \<^verbatim>\<open>generator loss\<close>, and then the series stored under \<^verbatim>\<open>'d_loss'\<close>, labelled
  \<^verbatim>\<open>discriminator loss\<close>, each value against its index (the epoch; the x axis is labelled
  \<^verbatim>\<open>Epoch\<close>), and it reads nothing else of the history: two histories that agree on the
  two keys give the same run.
\<close>

theorem loss_curve_plots:
  assumes "history h ''g_loss'' = Some g_loss" and "history h ''d_loss'' = Some d_loss"
  shows "loss_curve h w =
     (None, w\<lparr>trace := trace w @
        [PltPlot (zip (map real [0..<length g_loss]) g_loss) ''generator loss'',
         PltPlot (zip (map real [0..<length d_loss]) d_loss) ''discriminator loss'',
         PltXlabel ''Epoch'', PltYlabel ''Loss'', PltGrid ''y'', PltLegend ''lower right'',
         PltShow]\<rparr>) \<and>
     (history h' ''g_loss'' = history h ''g_loss'' \<and> history h' ''d_loss'' = history h ''d_loss'' \<longrightarrow>
        loss_curve h' w = loss_curve h w)"
  using loss_curve_eq[OF assms, of w] loss_curve_reads[of h' h w] by simp

theorem loss_curve_plots_witness:
  "history demo_history ''g_loss'' = Some [3, 2] \<and> history demo_history ''d_loss'' = Some [1, 2] \<and>
   plots (trace (snd (loss_curve demo_history world0))) =
     [([(0, 3), (1, 2)], ''generator loss''), ([(0, 1), (1, 2)], ''discriminator loss'')]"
proof -
  have h: "history demo_history ''g_loss'' = Some [3, 2]" "history demo_history ''d_loss'' = Some [1, 2]"
    by (simp_all add: demo_history_def)
  show ?thesis
    using loss_curve_plots[OF h, of world0] h by (simp add: world0_def upt_rec)
qed

end
